theory Spec2Isabelle
  imports Main
begin

section \<open>Python strings\<close>

text \<open>
  A Python \<open>str\<close> is a sequence of Unicode code points. Code points are natural numbers
  here, so that the line boundaries and the white space beyond ASCII, which
  \<open>str.splitlines\<close> and \<open>str.strip\<close> honour, are part of the model.
\<close>

type_synonym pystr = "nat list"

definition lit :: "string \<Rightarrow> pystr" where
  "lit s = map of_char s"

text \<open>The line boundaries of \<open>str.splitlines\<close>.\<close>

definition is_linebreak :: "nat \<Rightarrow> bool" where
  "is_linebreak c =
     (c = 0x0A \<or> c = 0x0B \<or> c = 0x0C \<or> c = 0x0D \<or> c = 0x1C \<or> c = 0x1D \<or> c = 0x1E
      \<or> c = 0x85 \<or> c = 0x2028 \<or> c = 0x2029)"

text \<open>The white space that \<open>str.strip()\<close> removes when it is given no argument.\<close>

definition is_space :: "nat \<Rightarrow> bool" where
  "is_space c =
     ((0x09 \<le> c \<and> c \<le> 0x0D) \<or> (0x1C \<le> c \<and> c \<le> 0x20) \<or> c = 0x85 \<or> c = 0xA0
      \<or> c = 0x1680 \<or> (0x2000 \<le> c \<and> c \<le> 0x200A) \<or> c = 0x2028 \<or> c = 0x2029
      \<or> c = 0x202F \<or> c = 0x205F \<or> c = 0x3000)"

text \<open>
  What follows a line: the boundary itself is consumed, and a carriage return directly
  followed by a line feed counts as one boundary.
\<close>

definition after_break :: "pystr \<Rightarrow> pystr" where
  "after_break r =
     (case r of
        [] \<Rightarrow> []
      | c # t \<Rightarrow> (case t of [] \<Rightarrow> t | d # u \<Rightarrow> if c = 0x0D \<and> d = 0x0A then u else t))"

text \<open>
  \<open>str.splitlines()\<close>: the lines without their boundaries. The empty string has no
  line, and a boundary at the very end opens no further line.
\<close>

function splitlines :: "pystr \<Rightarrow> pystr list" where
  "splitlines [] = []"
| "splitlines (c # cs) =
     takeWhile (\<lambda>x. \<not> is_linebreak x) (c # cs)
     # splitlines (after_break (dropWhile (\<lambda>x. \<not> is_linebreak x) (c # cs)))"
  by pat_completeness auto
termination
proof (relation "measure length")
  show "wf (measure length)" by simp
next
  fix c :: nat and cs :: pystr
  have b: "r \<noteq> [] \<Longrightarrow> length (after_break r) < length r" for r
    by (auto simp: after_break_def split: list.splits)
  show "(after_break (dropWhile (\<lambda>x. \<not> is_linebreak x) (c # cs)), c # cs) \<in> measure length"
  proof (cases "dropWhile (\<lambda>x. \<not> is_linebreak x) (c # cs) = []")
    case True
    then have "after_break (dropWhile (\<lambda>x. \<not> is_linebreak x) (c # cs)) = []"
      by (simp only: after_break_def list.case)
    then show ?thesis by simp
  next
    case False
    have "length (dropWhile (\<lambda>x. \<not> is_linebreak x) (c # cs)) \<le> length (c # cs)"
      by (rule length_dropWhile_le)
    with b[OF False] show ?thesis by simp
  qed
qed

declare splitlines.simps [simp del]

text \<open>\<open>str.strip()\<close>: leading and trailing white space removed.\<close>

definition strip :: "pystr \<Rightarrow> pystr" where
  "strip s = rev (dropWhile is_space (rev (dropWhile is_space s)))"

text \<open>
  \<open>str.split(sep)\<close> for a separator: the string is scanned from the left, and every
  occurrence found ends a piece and is skipped. \<open>cur\<close> holds the piece being read, in
  reverse. Python raises \<open>ValueError\<close> when the separator is empty; the module calls
  it with the two-space literal only, and an empty separator cuts nothing here.
\<close>

function split_from :: "pystr \<Rightarrow> pystr \<Rightarrow> pystr \<Rightarrow> pystr list" where
  "split_from sep cur [] = [rev cur]"
| "split_from sep cur (c # cs) =
     (if sep \<noteq> [] \<and> take (length sep) (c # cs) = sep
      then rev cur # split_from sep [] (drop (length sep) (c # cs))
      else split_from sep (c # cur) cs)"
  by pat_completeness auto
termination
  by (relation "measure (\<lambda>(sep, cur, s). length s)") auto

definition py_split :: "pystr \<Rightarrow> pystr \<Rightarrow> pystr list" where
  "py_split sep s = split_from sep [] s"

text \<open>\<open>sep.join(xs)\<close>.\<close>

fun py_join :: "pystr \<Rightarrow> pystr list \<Rightarrow> pystr" where
  "py_join sep [] = []"
| "py_join sep [x] = x"
| "py_join sep (x # y # ys) = x @ sep @ py_join sep (y # ys)"

section \<open>The parsed document\<close>

text \<open>
  The tree that the HTML parser hands back: tags with their attributes and children,
  text, and the strings that are no text of the page (comments, declarations).
\<close>

datatype node =
    Tag pystr "(pystr \<times> pystr) list" "node list"
  | NavigableString pystr
  | Comment pystr

fun is_named :: "pystr list \<Rightarrow> node \<Rightarrow> bool" where
  "is_named names (Tag n attrs cs) = (n \<in> set names)"
| "is_named names (NavigableString s) = False"
| "is_named names (Comment s) = False"

text \<open>
  \<open>for script in soup(names): script.extract()\<close>: every tag of the tree whose name is
  listed is found and taken out of its parent, together with all below it.
\<close>

fun extract_in :: "pystr list \<Rightarrow> node \<Rightarrow> node" where
  "extract_in names (Tag n attrs cs) =
     Tag n attrs (map (extract_in names) (filter (\<lambda>c. \<not> is_named names c) cs))"
| "extract_in names (NavigableString s) = NavigableString s"
| "extract_in names (Comment s) = Comment s"

definition extract_all :: "pystr list \<Rightarrow> node list \<Rightarrow> node list" where
  "extract_all names soup = map (extract_in names) (filter (\<lambda>c. \<not> is_named names c) soup)"

text \<open>\<open>get_text()\<close>: the text strings below a node, concatenated in document order.\<close>

fun node_text :: "node \<Rightarrow> pystr" where
  "node_text (Tag n attrs cs) = concat (map node_text cs)"
| "node_text (NavigableString s) = s"
| "node_text (Comment s) = []"

definition get_text :: "node list \<Rightarrow> pystr" where
  "get_text soup = concat (map node_text soup)"

section \<open>Text extraction\<close>

text \<open>
  The three lines of \<open>scrape_text_with_selenium\<close> that turn the text of the page into
  the text handed on: the generator of stripped lines, the generator of stripped
  phrases, and the join of the phrases that are not empty.
\<close>

definition text_lines :: "pystr \<Rightarrow> pystr list" where
  "text_lines text = map strip (splitlines text)"

definition text_chunks :: "pystr list \<Rightarrow> pystr list" where
  "text_chunks lines = concat (map (\<lambda>line. map strip (py_split (lit ''  '') line)) lines)"

definition normalize_text :: "pystr \<Rightarrow> pystr" where
  "normalize_text text =
     py_join [0x0A] (filter (\<lambda>chunk. chunk \<noteq> []) (text_chunks (text_lines text)))"

text \<open>The processing of the page source, from the parse to the text.\<close>

definition soup_text :: "(pystr \<Rightarrow> node list) \<Rightarrow> pystr \<Rightarrow> pystr" where
  "soup_text parser page_source =
     normalize_text (get_text (extract_all [lit ''script'', lit ''style''] (parser page_source)))"

section \<open>Effects\<close>

text \<open>
  Every call that leaves the module (the browser driver, the file system, the
  summarizer) may raise. An exception is a value, and a computation takes the world to
  a result or an exception, and a new world.
\<close>

datatype exn =
    KeyError pystr
  | AttributeError pystr
  | Raised pystr

text \<open>
  What the world records of the browser processes: a process started, a process
  terminated. A session handle is the number the world gave the process.
\<close>

datatype event = Launched nat | Quit nat

record 'w world =
  next_id :: nat
  events :: "event list"
  ext :: 'w

type_synonym ('a, 'w) io = "'w world \<Rightarrow> (exn + 'a) \<times> 'w world"

definition ret :: "'a \<Rightarrow> ('a, 'w) io" where
  "ret a s = (Inr a, s)"

definition raise :: "exn \<Rightarrow> ('a, 'w) io" where
  "raise e s = (Inl e, s)"

definition bind :: "('a, 'w) io \<Rightarrow> ('a \<Rightarrow> ('b, 'w) io) \<Rightarrow> ('b, 'w) io" where
  "bind m f s = (case m s of (Inl e, s') \<Rightarrow> (Inl e, s') | (Inr a, s') \<Rightarrow> f a s')"

text \<open>\<open>try: body except: handler\<close>, the bare \<open>except\<close> that catches whatever is raised.\<close>

definition try_except :: "('a, 'w) io \<Rightarrow> ('a, 'w) io \<Rightarrow> ('a, 'w) io" where
  "try_except body handler s =
     (case body s of (Inl e, s') \<Rightarrow> handler s' | (Inr a, s') \<Rightarrow> (Inr a, s'))"

text \<open>A call of a collaborator, which sees and changes its own part of the world only.\<close>

definition call :: "('w \<Rightarrow> (exn + 'a) \<times> 'w) \<Rightarrow> ('a, 'w) io" where
  "call f s = (case f (ext s) of (r, w) \<Rightarrow> (r, s\<lparr>ext := w\<rparr>))"

fun map_io :: "('a \<Rightarrow> ('b, 'w) io) \<Rightarrow> 'a list \<Rightarrow> ('b list, 'w) io" where
  "map_io f [] = ret []"
| "map_io f (x # xs) = bind (f x) (\<lambda>y. bind (map_io f xs) (\<lambda>ys. ret (y # ys)))"

section \<open>The collaborators\<close>

datatype options_class = ChromeOptions | SafariOptions | FirefoxOptions

datatype browser = Firefox | Safari | Chrome

datatype manager = GeckoDriverManager | ChromeDriverManager

record options =
  cls :: options_class
  experimental_options :: "(pystr \<times> bool) list"
  arguments :: "pystr list"

text \<open>
  The configuration (\<open>CFG\<close>, \<open>platform\<close>, \<open>FILE_DIR\<close>) and the libraries the module
  calls. A session handle and a page element are numbers. \<open>find_element\<close> and
  \<open>find_elements\<close> take the strategy and the value (\<open>None\<close> when the call gives one
  argument only); \<open>wait_until_located\<close> is
  \<open>WebDriverWait(driver, t).until(EC.presence_of_element_located((by, value)))\<close>;
  \<open>defines_experimental_option\<close> says which option classes have the method
  \<open>add_experimental_option\<close>; \<open>py_repr\<close> is \<open>repr\<close> on strings.
\<close>

record 'w env =
  selenium_web_browser :: pystr
  selenium_headless :: bool
  platform :: pystr
  file_dir :: pystr
  defines_experimental_option :: "options_class \<Rightarrow> bool"
  manager_install :: "manager \<Rightarrow> 'w \<Rightarrow> (exn + pystr) \<times> 'w"
  launch :: "browser \<Rightarrow> pystr option \<Rightarrow> options \<Rightarrow> 'w \<Rightarrow> (exn + unit) \<times> 'w"
  driver_get :: "nat \<Rightarrow> pystr \<Rightarrow> 'w \<Rightarrow> (exn + unit) \<times> 'w"
  wait_until_located :: "nat \<Rightarrow> nat \<Rightarrow> pystr \<Rightarrow> pystr \<Rightarrow> 'w \<Rightarrow> (exn + unit) \<times> 'w"
  execute_script :: "nat \<Rightarrow> pystr \<Rightarrow> 'w \<Rightarrow> (exn + pystr) \<times> 'w"
  page_source :: "nat \<Rightarrow> 'w \<Rightarrow> (exn + pystr) \<times> 'w"
  driver_quit :: "nat \<Rightarrow> 'w \<Rightarrow> (exn + unit) \<times> 'w"
  find_element :: "nat \<Rightarrow> pystr \<Rightarrow> pystr option \<Rightarrow> 'w \<Rightarrow> (exn + nat) \<times> 'w"
  find_elements :: "nat \<Rightarrow> pystr \<Rightarrow> pystr option \<Rightarrow> 'w \<Rightarrow> (exn + nat list) \<times> 'w"
  element_click :: "nat \<Rightarrow> 'w \<Rightarrow> (exn + unit) \<times> 'w"
  element_text :: "nat \<Rightarrow> 'w \<Rightarrow> (exn + pystr) \<times> 'w"
  element_sendkeys :: "nat \<Rightarrow> pystr \<Rightarrow> 'w \<Rightarrow> (exn + unit) \<times> 'w"
  read_file :: "pystr \<Rightarrow> 'w \<Rightarrow> (exn + pystr) \<times> 'w"
  html_parser :: "pystr \<Rightarrow> node list"
  summarize_text :: "pystr \<Rightarrow> pystr \<Rightarrow> pystr \<Rightarrow> nat \<Rightarrow> 'w \<Rightarrow> (exn + pystr) \<times> 'w"
  py_repr :: "pystr \<Rightarrow> pystr"

definition XPATH :: pystr where
  "XPATH = lit ''xpath''"

definition TAG_NAME :: pystr where
  "TAG_NAME = lit ''tag name''"

text \<open>\<open>str\<close> of a list of strings, as an f-string renders it.\<close>

definition str_of_list :: "(pystr \<Rightarrow> pystr) \<Rightarrow> pystr list \<Rightarrow> pystr" where
  "str_of_list repr xs = lit ''['' @ py_join (lit '', '') (map repr xs) @ lit '']''"

section \<open>Hyperlinks\<close>

text \<open>
  Modelled from the spec: \<open>extract_hyperlinks\<close> and \<open>format_hyperlinks\<close> of
  \<open>autogpt.processing.html\<close>, and the resolution of a reference against a base URL that
  they use, are not among the sources. The spec has the link extractor locate the anchor
  elements with an href attribute, resolve each href against the base URL to an
  absolute URL, pair it with the anchor's visible text (or the URL itself if there is no
  text), and format each pair as "text (url)". Resolution is that of RFC 3986, section
  5.2: a URL is its scheme, authority, path, query and fragment.
\<close>

text \<open>Modelled from the spec: the components of a URL, those it lacks being \<open>None\<close>.\<close>

record url =
  u_scheme :: "pystr option"
  u_authority :: "pystr option"
  u_path :: pystr
  u_query :: "pystr option"
  u_fragment :: "pystr option"

text \<open>Modelled from the spec: the letters, and the characters a scheme is made of.\<close>

definition is_alpha :: "nat \<Rightarrow> bool" where
  "is_alpha c = ((0x41 \<le> c \<and> c \<le> 0x5A) \<or> (0x61 \<le> c \<and> c \<le> 0x7A))"

definition is_scheme_char :: "nat \<Rightarrow> bool" where
  "is_scheme_char c =
     (is_alpha c \<or> (0x30 \<le> c \<and> c \<le> 0x39) \<or> c = 0x2B \<or> c = 0x2D \<or> c = 0x2E)"

text \<open>
  Modelled from the spec: the scheme of a reference is what stands before its first
  colon, when that is a letter followed by letters, digits, plus, minus and dots.
\<close>

definition split_scheme :: "pystr \<Rightarrow> pystr option \<times> pystr" where
  "split_scheme s =
     (let a = takeWhile is_scheme_char s; r = dropWhile is_scheme_char s
      in if a \<noteq> [] \<and> is_alpha (hd a) \<and> take 1 r = [0x3A] then (Some a, drop 1 r)
         else (None, s))"

text \<open>Modelled from the spec: a URL is absolute when it has a scheme.\<close>

definition is_absolute :: "pystr \<Rightarrow> bool" where
  "is_absolute s = (fst (split_scheme s) \<noteq> None)"

text \<open>
  Modelled from the spec: the characters that end the authority, and those that end the
  path.
\<close>

definition ends_authority :: "nat \<Rightarrow> bool" where
  "ends_authority c = (c = 0x2F \<or> c = 0x3F \<or> c = 0x23)"

definition ends_path :: "nat \<Rightarrow> bool" where
  "ends_path c = (c = 0x3F \<or> c = 0x23)"

text \<open>Modelled from the spec: a reference taken apart into its five components.\<close>

definition parse_url :: "pystr \<Rightarrow> url" where
  "parse_url s =
     (let (sch, r1) = split_scheme s;
          (auth, r2) =
            (if take 2 r1 = [0x2F, 0x2F]
             then (Some (takeWhile (\<lambda>c. \<not> ends_authority c) (drop 2 r1)),
                   dropWhile (\<lambda>c. \<not> ends_authority c) (drop 2 r1))
             else (None, r1));
          p = takeWhile (\<lambda>c. \<not> ends_path c) r2;
          r3 = dropWhile (\<lambda>c. \<not> ends_path c) r2;
          (q, r4) =
            (if take 1 r3 = [0x3F]
             then (Some (takeWhile (\<lambda>c. c \<noteq> 0x23) (drop 1 r3)),
                   dropWhile (\<lambda>c. c \<noteq> 0x23) (drop 1 r3))
             else (None, r3));
          f = (if take 1 r4 = [0x23] then Some (drop 1 r4) else None)
      in \<lparr>u_scheme = sch, u_authority = auth, u_path = p, u_query = q, u_fragment = f\<rparr>)"

text \<open>Modelled from the spec: a URL put together again from its components.\<close>

definition unparse_url :: "url \<Rightarrow> pystr" where
  "unparse_url u =
     (case u_scheme u of None \<Rightarrow> [] | Some x \<Rightarrow> x @ [0x3A])
     @ (case u_authority u of None \<Rightarrow> [] | Some a \<Rightarrow> [0x2F, 0x2F] @ a)
     @ u_path u
     @ (case u_query u of None \<Rightarrow> [] | Some q \<Rightarrow> 0x3F # q)
     @ (case u_fragment u of None \<Rightarrow> [] | Some f \<Rightarrow> 0x23 # f)"

text \<open>
  Modelled from the spec: the segments "." and ".." of a path are resolved, a ".."
  taking back the segment before it. \<open>out\<close> holds the segments kept, in reverse.
\<close>

fun remove_dots :: "pystr list \<Rightarrow> pystr list \<Rightarrow> pystr list" where
  "remove_dots out [] = rev out"
| "remove_dots out (seg # segs) =
     (if seg = [0x2E] then (if segs = [] then rev ([] # out) else remove_dots out segs)
      else if seg = [0x2E, 0x2E]
      then (if segs = [] then rev ([] # tl out) else remove_dots (tl out) segs)
      else remove_dots (seg # out) segs)"

definition remove_dot_segments :: "pystr \<Rightarrow> pystr" where
  "remove_dot_segments p =
     (if take 1 p = [0x2F]
      then 0x2F # py_join [0x2F] (remove_dots [] (py_split [0x2F] (drop 1 p)))
      else py_join [0x2F] (remove_dots [] (py_split [0x2F] p)))"

text \<open>
  Modelled from the spec: a relative path replaces what follows the last slash of the
  base path.
\<close>

definition merge_paths :: "url \<Rightarrow> pystr \<Rightarrow> pystr" where
  "merge_paths b p =
     (if u_authority b \<noteq> None \<and> u_path b = [] then 0x2F # p
      else rev (dropWhile (\<lambda>c. c \<noteq> 0x2F) (rev (u_path b))) @ p)"

text \<open>Modelled from the spec: the resolution of the reference \<open>r\<close> against the base \<open>b\<close>.\<close>

definition resolve :: "url \<Rightarrow> url \<Rightarrow> url" where
  "resolve b r =
     (if u_scheme r \<noteq> None then r\<lparr>u_path := remove_dot_segments (u_path r)\<rparr>
      else if u_authority r \<noteq> None
      then r\<lparr>u_scheme := u_scheme b, u_path := remove_dot_segments (u_path r)\<rparr>
      else if u_path r = []
      then \<lparr>u_scheme = u_scheme b, u_authority = u_authority b, u_path = u_path b,
            u_query = (if u_query r \<noteq> None then u_query r else u_query b),
            u_fragment = u_fragment r\<rparr>
      else \<lparr>u_scheme = u_scheme b, u_authority = u_authority b,
            u_path = (if take 1 (u_path r) = [0x2F] then remove_dot_segments (u_path r)
                      else remove_dot_segments (merge_paths b (u_path r))),
            u_query = u_query r, u_fragment = u_fragment r\<rparr>)"

text \<open>
  Modelled from the spec: the href resolved against the base URL, both given and
  returned as strings.
\<close>

definition urljoin :: "pystr \<Rightarrow> pystr \<Rightarrow> pystr" where
  "urljoin base href = unparse_url (resolve (parse_url base) (parse_url href))"

text \<open>
  Modelled from the spec: the anchor elements that have an href attribute, in document
  order.
\<close>

fun anchors :: "node \<Rightarrow> node list" where
  "anchors (Tag n attrs cs) =
     (if n = lit ''a'' \<and> map_of attrs (lit ''href'') \<noteq> None then [Tag n attrs cs] else [])
     @ concat (map anchors cs)"
| "anchors (NavigableString s) = []"
| "anchors (Comment s) = []"

text \<open>Modelled from the spec: the href attribute of an anchor.\<close>

fun href_of :: "node \<Rightarrow> pystr" where
  "href_of (Tag n attrs cs) = (case map_of attrs (lit ''href'') of None \<Rightarrow> [] | Some h \<Rightarrow> h)"
| "href_of (NavigableString s) = []"
| "href_of (Comment s) = []"

text \<open>
  Modelled from the spec: the pair of an anchor, its visible text (or the URL itself
  if it has no text) and its href resolved against the base URL.
\<close>

definition hyperlink :: "pystr \<Rightarrow> node \<Rightarrow> pystr \<times> pystr" where
  "hyperlink base_url a =
     (let link_url = urljoin base_url (href_of a); link_text = node_text a
      in (if link_text = [] then link_url else link_text, link_url))"

text \<open>
  Modelled from the spec: \<open>extract_hyperlinks\<close>, the pairs of the anchors of the
  document that have an href, in document order.
\<close>

definition extract_hyperlinks :: "node list \<Rightarrow> pystr \<Rightarrow> (pystr \<times> pystr) list" where
  "extract_hyperlinks soup base_url = map (hyperlink base_url) (concat (map anchors soup))"

text \<open>Modelled from the spec: each pair as the string "text (url)".\<close>

definition format_hyperlink :: "pystr \<times> pystr \<Rightarrow> pystr" where
  "format_hyperlink l = fst l @ lit '' ('' @ snd l @ lit '')''"

text \<open>Modelled from the spec: \<open>format_hyperlinks\<close>, each pair formatted.\<close>

definition format_hyperlinks :: "(pystr \<times> pystr) list \<Rightarrow> pystr list" where
  "format_hyperlinks hyperlinks = map format_hyperlink hyperlinks"

section \<open>The module\<close>

subsection \<open>The browser session\<close>

definition options_available :: "(pystr \<times> options_class) list" where
  "options_available =
     [(lit ''chrome'', ChromeOptions), (lit ''safari'', SafariOptions),
      (lit ''firefox'', FirefoxOptions)]"

definition add_experimental_option ::
  "'w env \<Rightarrow> options \<Rightarrow> pystr \<Rightarrow> bool \<Rightarrow> (options, 'w) io" where
  "add_experimental_option E opts name v =
     (if defines_experimental_option E (cls opts)
      then ret (opts\<lparr>experimental_options := experimental_options opts @ [(name, v)]\<rparr>)
      else raise (AttributeError (lit ''add_experimental_option'')))"

definition add_argument :: "options \<Rightarrow> pystr \<Rightarrow> options" where
  "add_argument opts a = opts\<lparr>arguments := arguments opts @ [a]\<rparr>"

text \<open>
  The constructor of a driver class starts the browser process; the world numbers the
  new session and records that it runs.
\<close>

definition new_session :: "(nat, 'w) io" where
  "new_session s =
     (Inr (next_id s), s\<lparr>next_id := Suc (next_id s), events := events s @ [Launched (next_id s)]\<rparr>)"

definition webdriver :: "'w env \<Rightarrow> browser \<Rightarrow> pystr option \<Rightarrow> options \<Rightarrow> (nat, 'w) io" where
  "webdriver E b executable_path opts =
     bind (call (launch E b executable_path opts)) (\<lambda>_. new_session)"

definition user_agent :: pystr where
  "user_agent = lit ''user-agent=Mozilla/5.0 (Windows NT 10.0; Win64; x64) AppleWebKit/537.36 (KHTML, like Gecko) Chrome/112.0.5615.49 Safari/537.36''"

definition create_driver :: "'w env \<Rightarrow> (nat, 'w) io" where
  "create_driver E =
     (case map_of options_available (selenium_web_browser E) of
        None \<Rightarrow> raise (KeyError (selenium_web_browser E))
      | Some c \<Rightarrow>
          bind (add_experimental_option E
                  \<lparr>cls = c, experimental_options = [], arguments = []\<rparr> (lit ''detach'') True)
            (\<lambda>options.
               let options = add_argument options user_agent
               in if selenium_web_browser E = lit ''firefox''
                  then bind (call (manager_install E GeckoDriverManager))
                         (\<lambda>path. webdriver E Firefox (Some path) options)
                  else if selenium_web_browser E = lit ''safari''
                  then webdriver E Safari None options
                  else
                    let options =
                          (if platform E = lit ''linux'' \<or> platform E = lit ''linux2''
                           then add_argument
                                  (add_argument options (lit ''--disable-dev-shm-usage''))
                                  (lit ''--remote-debugging-port=9222'')
                           else options);
                        options = add_argument options (lit ''--no-sandbox'');
                        options =
                          (if selenium_headless E
                           then add_argument (add_argument options (lit ''--headless''))
                                  (lit ''--disable-gpu'')
                           else options)
                    in bind (call (manager_install E ChromeDriverManager))
                         (\<lambda>path. webdriver E Chrome (Some path) options)))"

definition close_browser :: "'w env \<Rightarrow> nat \<Rightarrow> (unit, 'w) io" where
  "close_browser E driver =
     bind (call (driver_quit E driver))
       (\<lambda>_ s. (Inr (), s\<lparr>events := events s @ [Quit driver]\<rparr>))"

definition add_header :: "'w env \<Rightarrow> nat \<Rightarrow> (unit, 'w) io" where
  "add_header E driver =
     bind (call (read_file E (file_dir E @ lit ''/js/overlay.js'')))
       (\<lambda>js. bind (call (execute_script E driver js)) (\<lambda>_. ret ()))"

subsection \<open>Scraping\<close>

definition scrape_text_with_selenium :: "'w env \<Rightarrow> pystr \<Rightarrow> nat \<Rightarrow> (nat \<times> pystr, 'w) io" where
  "scrape_text_with_selenium E url driver =
     bind (call (driver_get E driver url))
       (\<lambda>_. bind (call (wait_until_located E driver 10 TAG_NAME (lit ''body'')))
          (\<lambda>_. bind (call (execute_script E driver (lit ''return document.body.outerHTML;'')))
             (\<lambda>page_source. ret (driver, soup_text (html_parser E) page_source))))"

definition scrape_links_with_selenium :: "'w env \<Rightarrow> nat \<Rightarrow> pystr \<Rightarrow> (pystr list, 'w) io" where
  "scrape_links_with_selenium E driver url =
     bind (call (page_source E driver))
       (\<lambda>src.
          let soup = extract_all [lit ''script'', lit ''style''] (html_parser E src)
          in ret (format_hyperlinks (extract_hyperlinks soup url)))"

text \<open>The lines of \<open>browse_website\<close> under the comment "Limit links to 5".\<close>

definition limit_links :: "pystr list \<Rightarrow> pystr list" where
  "limit_links links = (if length links > 5 then take 5 links else links)"

definition answer :: "(pystr \<Rightarrow> pystr) \<Rightarrow> pystr \<Rightarrow> pystr list \<Rightarrow> pystr" where
  "answer repr summary_text links =
     lit ''Answer gathered from website: '' @ summary_text
     @ [0x20, 0x0A, 0x20, 0x0A, 0x20] @ lit ''Links: '' @ str_of_list repr links"

definition browse_website :: "'w env \<Rightarrow> pystr \<Rightarrow> pystr \<Rightarrow> (pystr \<times> nat, 'w) io" where
  "browse_website E url question =
     bind (create_driver E)
       (\<lambda>driver. bind (scrape_text_with_selenium E url driver)
          (\<lambda>(driver, text). bind (add_header E driver)
             (\<lambda>_. bind (call (summarize_text E url text question driver))
                (\<lambda>summary_text. bind (scrape_links_with_selenium E driver url)
                   (\<lambda>links.
                      let links = limit_links links
                      in bind (close_browser E driver)
                           (\<lambda>_. ret (answer (py_repr E) summary_text links, driver)))))))"

definition open_website_in_browser :: "'w env \<Rightarrow> pystr \<Rightarrow> pystr \<Rightarrow> (pystr \<times> nat, 'w) io" where
  "open_website_in_browser E url question =
     bind (create_driver E)
       (\<lambda>driver. bind (call (driver_get E driver url))
          (\<lambda>_. bind (call (wait_until_located E driver 10 TAG_NAME (lit ''body'')))
             (\<lambda>_. ret (lit ''Website is now open using the selenium webdriver'', driver))))"

subsection \<open>The question-and-answer helpers\<close>

text \<open>What a helper returns: a string, a tuple, a list or a dictionary.\<close>

datatype pyval =
    PStr pystr
  | PTuple "pyval list"
  | PList "pyval list"
  | PDict "(pystr \<times> pyval) list"

definition identify_form_field :: "'w env \<Rightarrow> nat \<Rightarrow> (pyval, 'w) io" where
  "identify_form_field E driver =
     bind (call (find_element E driver XPATH (Some (lit ''/html/body''))))
       (\<lambda>body. bind (call (element_text E body))
          (\<lambda>body_text. ret (PTuple [PStr (lit ''Current valid html''), PStr body_text])))"

definition enter_text_into_form_field :: "'w env \<Rightarrow> nat \<Rightarrow> pystr \<Rightarrow> pystr \<Rightarrow> (pyval, 'w) io" where
  "enter_text_into_form_field E driver field_name text =
     bind (call (find_element E driver XPATH (Some (lit ''/html/body''))))
       (\<lambda>body. bind (call (element_text E body))
          (\<lambda>body_text. bind (call (find_element E driver field_name None))
             (\<lambda>field. bind (call (element_sendkeys E field text))
                (\<lambda>_. ret (PTuple [PStr (lit ''Current valid html''), PStr body_text])))))"

definition texts_of :: "'w env \<Rightarrow> nat list \<Rightarrow> (pyval, 'w) io" where
  "texts_of E elements =
     bind (map_io (\<lambda>e. call (element_text E e)) elements) (\<lambda>ts. ret (PList (map PStr ts)))"

definition get_updated_html_context :: "'w env \<Rightarrow> nat \<Rightarrow> (pyval, 'w) io" where
  "get_updated_html_context E driver =
     bind (call (find_elements E driver XPATH (Some (lit ''//button''))))
       (\<lambda>buttons. bind (texts_of E buttons)
          (\<lambda>button_text.
             bind (call (find_elements E driver XPATH
                     (Some (lit ''//input[@type='' @ [0x27] @ lit ''text'' @ [0x27]
                            @ lit '' or @type='' @ [0x27] @ lit ''password'' @ [0x27] @ lit '']''))))
               (\<lambda>inputs. bind (texts_of E inputs)
                  (\<lambda>input_text.
                     bind (call (find_elements E driver XPATH (Some (lit ''/html/body''))))
                       (\<lambda>body. bind (texts_of E body)
                          (\<lambda>body_text.
                             ret (PDict [(lit ''body_text'', body_text),
                                         (lit ''buttons'', button_text),
                                         (lit ''inputs'', input_text)])))))))"

definition valid_context :: "pyval \<Rightarrow> pyval" where
  "valid_context c = PTuple [PStr (lit ''Current valid website context''), c]"

definition no_button :: pystr where
  "no_button =
     lit ''Error: That button doesn'' @ [0x27]
     @ lit ''t exist, please identify the correct button first''"

definition no_html :: pystr where
  "no_html =
     lit ''Error: Can'' @ [0x27] @ lit ''t seem to get html, please stop doing QA and get some help''"

definition navigate_by_click_button :: "'w env \<Rightarrow> nat \<Rightarrow> pystr \<Rightarrow> (pyval, 'w) io" where
  "navigate_by_click_button E driver button_text =
     try_except
       (bind (call (find_element E driver button_text None))
          (\<lambda>button. bind (call (element_click E button))
             (\<lambda>buttons. bind (call (wait_until_located E driver 10 TAG_NAME (lit ''body'')))
                (\<lambda>_. bind (get_updated_html_context E driver) (\<lambda>c. ret (valid_context c))))))
       (ret (PStr no_button))"

definition get_updated_html :: "'w env \<Rightarrow> nat \<Rightarrow> (pyval, 'w) io" where
  "get_updated_html E driver =
     try_except
       (bind (get_updated_html_context E driver) (\<lambda>c. ret (valid_context c)))
       (ret (PStr no_html))"

definition find_button_name :: "'w env \<Rightarrow> nat \<Rightarrow> (pyval, 'w) io" where
  "find_button_name E driver =
     try_except
       (bind (get_updated_html_context E driver) (\<lambda>c. ret (valid_context c)))
       (ret (PStr no_button))"

text \<open>
  \<open>find_elements\<close> returns a list, and a list has no attribute \<open>text\<close>: reading it
  raises.
\<close>

definition list_text :: "nat list \<Rightarrow> (pyval, 'w) io" where
  "list_text elements = raise (AttributeError (lit ''text''))"

definition click_button :: "'w env \<Rightarrow> nat \<Rightarrow> (pyval, 'w) io" where
  "click_button E driver =
     try_except
       (bind (call (find_elements E driver XPATH (Some (lit ''//button''))))
          (\<lambda>found. bind (list_text found)
             (\<lambda>buttons.
                bind (call (find_elements E driver XPATH
                        (Some (lit ''//input[@type='' @ [0x27] @ lit ''text'' @ [0x27]
                               @ lit '' or @type='' @ [0x27] @ lit ''password'' @ [0x27] @ lit '']''))))
                  (\<lambda>found. bind (list_text found)
                     (\<lambda>inputs.
                        bind (call (find_elements E driver XPATH (Some (lit ''/html/body''))))
                          (\<lambda>found. bind (list_text found)
                             (\<lambda>body_text.
                                ret (valid_context
                                       (PDict [(lit ''body_text'', body_text),
                                               (lit ''buttons'', buttons),
                                               (lit ''inputs'', inputs)])))))))))
       (ret (PStr no_button))"

section \<open>The specification of the text extractor\<close>

text \<open>
  The text extractor in the words of the specification, each step written on its own
  and none of them through the functions of the module above.

  The remaining visible text of a document whose script and style elements are removed:
  an element named script or style gives nothing, any other element gives the text of
  its children, a text string gives itself.
\<close>

fun visible :: "node \<Rightarrow> pystr" where
  "visible (Tag n attrs cs) =
     (if n = lit ''script'' \<or> n = lit ''style'' then [] else concat (map visible cs))"
| "visible (NavigableString s) = s"
| "visible (Comment s) = []"

definition spec_visible_text :: "node list \<Rightarrow> pystr" where
  "spec_visible_text document = concat (map visible document)"

text \<open>
  The split on line breaks: the text is read character by character, a line break ends
  the line read so far (a carriage return together with the line feed behind it), and
  what is left at the end is a line if it is not empty.
\<close>

fun spec_lines_from :: "pystr \<Rightarrow> pystr \<Rightarrow> pystr list" where
  "spec_lines_from cur [] = (if cur = [] then [] else [rev cur])"
| "spec_lines_from cur (c # cs) =
     (if is_linebreak c
      then rev cur
           # spec_lines_from [] (if c = 0x0D \<and> take 1 cs = [0x0A] then drop 1 cs else cs)
      else spec_lines_from (c # cur) cs)"

text \<open>
  Stripping: the white space in front is dropped; white space met later is held back
  and given out only when something else follows it.
\<close>

fun spec_lstrip :: "pystr \<Rightarrow> pystr" where
  "spec_lstrip [] = []"
| "spec_lstrip (c # cs) = (if is_space c then spec_lstrip cs else c # cs)"

fun spec_rstrip_from :: "pystr \<Rightarrow> pystr \<Rightarrow> pystr" where
  "spec_rstrip_from held [] = []"
| "spec_rstrip_from held (c # cs) =
     (if is_space c then spec_rstrip_from (c # held) cs
      else rev held @ c # spec_rstrip_from [] cs)"

definition spec_strip :: "pystr \<Rightarrow> pystr" where
  "spec_strip s = spec_rstrip_from [] (spec_lstrip s)"

text \<open>
  The split on double spaces: two spaces met while reading end the fragment, and reading
  goes on behind them.
\<close>

fun split_double_space_from :: "pystr \<Rightarrow> pystr \<Rightarrow> pystr list" where
  "split_double_space_from cur (a # b # r) =
     (if a = 0x20 \<and> b = 0x20 then rev cur # split_double_space_from [] r
      else split_double_space_from (a # cur) (b # r))"
| "split_double_space_from cur [a] = [rev (a # cur)]"
| "split_double_space_from cur [] = [rev cur]"

text \<open>The join with single newlines: a newline stands before every line but the first.\<close>

fun join_lines :: "pystr list \<Rightarrow> pystr" where
  "join_lines [] = []"
| "join_lines (x # xs) = x @ concat (map (\<lambda>l. 0x0A # l) xs)"

definition spec_clean_text :: "node list \<Rightarrow> pystr" where
  "spec_clean_text document =
     (let visible_text = spec_visible_text document;
          lines = map spec_strip (spec_lines_from [] visible_text);
          fragments = map spec_strip (concat (map (split_double_space_from []) lines));
          survivors = filter (\<lambda>f. f \<noteq> []) fragments
      in join_lines survivors)"

text \<open>An element with one of the names is the node or stands somewhere below it.\<close>

fun mentions :: "pystr list \<Rightarrow> node \<Rightarrow> bool" where
  "mentions names (Tag n attrs cs) = (n \<in> set names \<or> (\<exists>c\<in>set cs. mentions names c))"
| "mentions names (NavigableString s) = False"
| "mentions names (Comment s) = False"

text \<open>
  A node with no visible content: a script or style element, an element all of whose
  children have none, a text string of white space only (the empty one among them), a
  comment.
\<close>

fun invisible :: "node \<Rightarrow> bool" where
  "invisible (Tag n attrs cs) =
     (n = lit ''script'' \<or> n = lit ''style'' \<or> (\<forall>c\<in>set cs. invisible c))"
| "invisible (NavigableString s) = (\<forall>c\<in>set s. is_space c)"
| "invisible (Comment s) = True"

section \<open>Notions of the proofs\<close>

text \<open>\<open>sep\<close> occurs in \<open>s\<close>.\<close>

definition has_sub :: "pystr \<Rightarrow> pystr \<Rightarrow> bool" where
  "has_sub sep s = (\<exists>xs ys. s = xs @ sep @ ys)"

text \<open>
  What the text extractor joins: strings that are not empty, hold no line boundary,
  neither start nor end with white space, and hold no two spaces in a row.
\<close>

definition clean_fragment :: "pystr \<Rightarrow> bool" where
  "clean_fragment f =
     (f \<noteq> [] \<and> (\<forall>c\<in>set f. \<not> is_linebreak c) \<and> \<not> is_space (hd f) \<and> \<not> is_space (last f)
      \<and> \<not> has_sub [0x20, 0x20] f)"

definition fragments :: "pystr \<Rightarrow> pystr list" where
  "fragments text = filter (\<lambda>chunk. chunk \<noteq> []) (text_chunks (text_lines text))"


section \<open>Example pages and collaborators\<close>

definition anchor :: "pystr \<Rightarrow> pystr \<Rightarrow> node" where
  "anchor href label = Tag (lit ''a'') [(lit ''href'', href)] [NavigableString label]"

text \<open>
  A page as the browser hands it over, all of it in the body element: a script, a
  paragraph, an anchor that has no href, a division with a style sheet, and twelve
  anchors that have an href, one of them without text.
\<close>

definition demo_soup :: "node list" where
  "demo_soup =
     [Tag (lit ''body'') []
        [Tag (lit ''script'') [] [NavigableString (lit ''x = 1'')],
         Tag (lit ''p'') [] [NavigableString (lit '' Hi   there '' @ [0x0A, 0x0A])],
         Tag (lit ''a'') [] [NavigableString (lit ''top'')],
         Tag (lit ''div'') []
           [Tag (lit ''style'') [] [NavigableString (lit ''p { color: red }'')],
            anchor (lit ''/about'') (lit ''About''),
            anchor (lit ''b'') (lit ''B''), anchor (lit ''c'') (lit ''C''),
            anchor (lit ''d'') [], anchor (lit ''e'') (lit ''E''),
            anchor (lit ''f'') (lit ''F''), anchor (lit ''g'') (lit ''G'')],
         anchor (lit ''h'') (lit ''H''), anchor (lit ''i'') (lit ''I''),
         anchor (lit ''j'') (lit ''J''), anchor (lit ''k'') (lit ''K''),
         anchor (lit ''l'') (lit ''L'')]]"

text \<open>
  A page whose body holds a script, a style sheet inside a division, white space and a
  comment, and nothing else; and what is left of it without the script and the style
  sheet.
\<close>

definition script_soup :: "node list" where
  "script_soup =
     [Tag (lit ''body'') []
        [Tag (lit ''script'') [] [NavigableString (lit ''x = 1'')],
         NavigableString [0x0A, 0x20, 0x20],
         Tag (lit ''div'') [] [Tag (lit ''style'') [] [NavigableString (lit ''p { color: red }'')]],
         Comment (lit ''end'')]]"

definition script_soup_left :: "node list" where
  "script_soup_left =
     [Tag (lit ''body'') []
        [NavigableString [0x0A, 0x20, 0x20], Tag (lit ''div'') [] [], Comment (lit ''end'')]]"

text \<open>
  A page with one relative link, and the URL of a page given without its scheme.
\<close>

definition about_soup :: "node list" where
  "about_soup = [Tag (lit ''body'') [] [anchor (lit ''/about'') (lit ''About'')]]"

definition bare_url :: pystr where
  "bare_url = lit ''example.com/page''"

definition demo_url :: pystr where
  "demo_url = lit ''https://example.com/page''"

text \<open>
  Collaborators that all succeed, but for the lookup of an element by anything else
  than an XPath, and for \<open>sendkeys\<close>, which no element has.
\<close>

definition demo_env :: "unit env" where
  "demo_env =
     \<lparr>selenium_web_browser = lit ''chrome'', selenium_headless = True,
      platform = lit ''linux'', file_dir = lit ''/app'',
      defines_experimental_option = (\<lambda>c. c = ChromeOptions),
      manager_install = (\<lambda>m w. (Inr (lit ''/bin/driver''), w)),
      launch = (\<lambda>b p opts w. (Inr (), w)),
      driver_get = (\<lambda>d u w. (Inr (), w)),
      wait_until_located = (\<lambda>d t by v w. (Inr (), w)),
      execute_script = (\<lambda>d js w. (Inr (lit ''<body>''), w)),
      page_source = (\<lambda>d w. (Inr (lit ''<html>''), w)),
      driver_quit = (\<lambda>d w. (Inr (), w)),
      find_element = (\<lambda>d by v w.
        if by = XPATH then (Inr 1, w) else (Inl (Raised (lit ''NoSuchElementException'')), w)),
      find_elements = (\<lambda>d by v w. (Inr [1, 2], w)),
      element_click = (\<lambda>e w. (Inr (), w)),
      element_text = (\<lambda>e w. (Inr (lit ''OK''), w)),
      element_sendkeys = (\<lambda>e t w. (Inl (AttributeError (lit ''sendkeys'')), w)),
      read_file = (\<lambda>p w. (Inr (lit ''js''), w)),
      html_parser = (\<lambda>src. demo_soup),
      summarize_text = (\<lambda>u t q d w. (Inr (lit ''Summary''), w)),
      py_repr = (\<lambda>s. [0x27] @ s @ [0x27])\<rparr>"

definition script_env :: "unit env" where
  "script_env = demo_env\<lparr>html_parser := (\<lambda>src. script_soup)\<rparr>"

definition edge_env :: "unit env" where
  "edge_env = demo_env\<lparr>selenium_web_browser := lit ''edge''\<rparr>"

definition demo_world :: "unit world" where
  "demo_world = \<lparr>next_id = 0, events = [], ext = ()\<rparr>"

text \<open>What the example page and collaborators are expected to give.\<close>

definition quoted :: "pystr \<Rightarrow> pystr" where
  "quoted s = [0x27] @ s @ [0x27]"

definition demo_text :: pystr where
  "demo_text = lit ''Hi'' @ [0x0A] @ lit ''there'' @ [0x0A] @ lit ''topAboutBCEFGHIJKL''"

definition demo_links :: "pystr list" where
  "demo_links =
     [lit ''About (https://example.com/about)'', lit ''B (https://example.com/b)'',
      lit ''C (https://example.com/c)'',
      lit ''https://example.com/d (https://example.com/d)'',
      lit ''E (https://example.com/e)'', lit ''F (https://example.com/f)'',
      lit ''G (https://example.com/g)'', lit ''H (https://example.com/h)'',
      lit ''I (https://example.com/i)'', lit ''J (https://example.com/j)'',
      lit ''K (https://example.com/k)'', lit ''L (https://example.com/l)'']"

definition demo_answer :: pystr where
  "demo_answer =
     lit ''Answer gathered from website: Summary'' @ [0x20, 0x0A, 0x20, 0x0A, 0x20]
     @ lit ''Links: ['' @ quoted (lit ''About (https://example.com/about)'')
     @ lit '', '' @ quoted (lit ''B (https://example.com/b)'')
     @ lit '', '' @ quoted (lit ''C (https://example.com/c)'')
     @ lit '', '' @ quoted (lit ''https://example.com/d (https://example.com/d)'')
     @ lit '', '' @ quoted (lit ''E (https://example.com/e)'') @ lit '']''"

definition demo_context :: pyval where
  "demo_context =
     PDict [(lit ''body_text'', PList [PStr (lit ''OK''), PStr (lit ''OK'')]),
            (lit ''buttons'', PList [PStr (lit ''OK''), PStr (lit ''OK'')]),
            (lit ''inputs'', PList [PStr (lit ''OK''), PStr (lit ''OK'')])]"

definition launched_world :: "unit world" where
  "launched_world = \<lparr>next_id = 1, events = [Launched 0], ext = ()\<rparr>"

definition closed_world :: "unit world" where
  "closed_world = \<lparr>next_id = 1, events = [Launched 0, Quit 0], ext = ()\<rparr>"

section \<open>Lemmas\<close>


text \<open>The equations that evaluate the definitions on an example.\<close>

lemmas str_eval = lit_def strip_def is_space_def is_linebreak_def py_split_def after_break_def
  splitlines.simps

lemmas text_eval = normalize_text_def text_chunks_def text_lines_def get_text_def
  extract_all_def soup_text_def

lemmas io_eval = bind_def ret_def raise_def call_def try_except_def

lemmas url_eval = format_hyperlinks_def format_hyperlink_def extract_hyperlinks_def
  hyperlink_def urljoin_def parse_url_def unparse_url_def resolve_def split_scheme_def
  is_scheme_char_def is_alpha_def ends_authority_def ends_path_def remove_dot_segments_def
  merge_paths_def is_absolute_def Let_def

lemmas module_eval = create_driver_def options_available_def add_experimental_option_def
  webdriver_def new_session_def close_browser_def add_header_def
  scrape_text_with_selenium_def scrape_links_with_selenium_def limit_links_def answer_def
  str_of_list_def browse_website_def open_website_in_browser_def
  enter_text_into_form_field_def texts_of_def get_updated_html_context_def valid_context_def
  navigate_by_click_button_def get_updated_html_def find_button_name_def list_text_def
  click_button_def XPATH_def TAG_NAME_def

lemmas demo_eval = demo_env_def demo_world_def launched_world_def closed_world_def
  demo_soup_def anchor_def demo_text_def demo_links_def demo_url_def demo_answer_def
  demo_context_def quoted_def script_env_def script_soup_def script_soup_left_def
  edge_env_def about_soup_def bare_url_def

subsection \<open>Lines, stripping and splitting\<close>

lemma splitlines_unfold:
  "splitlines s =
     (if s = [] then []
      else takeWhile (\<lambda>c. \<not> is_linebreak c) s
           # splitlines (after_break (dropWhile (\<lambda>c. \<not> is_linebreak c) s)))"
  by (cases s) (simp_all add: splitlines.simps)

lemma splitlines_induct:
  assumes "\<And>s. (s \<noteq> [] \<Longrightarrow> P (after_break (dropWhile (\<lambda>c. \<not> is_linebreak c) s))) \<Longrightarrow> P s"
  shows "P s"
proof (induction s rule: splitlines.induct)
  case 1
  show ?case by (rule assms) simp
next
  case (2 c cs)
  show ?case by (rule assms) (rule "2.IH")
qed

lemma splitlines_no_break:
  "l \<in> set (splitlines s) \<Longrightarrow> c \<in> set l \<Longrightarrow> \<not> is_linebreak c"
proof (induction s rule: splitlines_induct)
  case (1 s)
  show ?case
  proof (cases "s = []")
    case True
    with "1.prems" show ?thesis by (simp add: splitlines_unfold)
  next
    case False
    from "1.prems"(1) False
    consider "l = takeWhile (\<lambda>c. \<not> is_linebreak c) s"
      | "l \<in> set (splitlines (after_break (dropWhile (\<lambda>c. \<not> is_linebreak c) s)))"
      by (subst (asm) splitlines_unfold) auto
    then show ?thesis
    proof cases
      case 1
      with "1.prems"(2) show ?thesis by (auto dest: set_takeWhileD)
    next
      case 2
      with "1.IH"[OF False] "1.prems"(2) show ?thesis by simp
    qed
  qed
qed

lemma splitlines_chars:
  "l \<in> set (splitlines s) \<Longrightarrow> set l \<subseteq> set s"
proof (induction s rule: splitlines_induct)
  case (1 s)
  have ab: "set (after_break r) \<subseteq> set r" for r
  proof (cases r)
    case Nil
    then show ?thesis by (simp add: after_break_def)
  next
    case (Cons c t)
    then show ?thesis by (cases t) (auto simp: after_break_def)
  qed
  show ?case
  proof (cases "s = []")
    case True
    with "1.prems" show ?thesis by (simp add: splitlines_unfold)
  next
    case False
    from "1.prems"(1) False
    consider "l = takeWhile (\<lambda>c. \<not> is_linebreak c) s"
      | "l \<in> set (splitlines (after_break (dropWhile (\<lambda>c. \<not> is_linebreak c) s)))"
      by (subst (asm) splitlines_unfold) auto
    then show ?thesis
    proof cases
      case 1
      then show ?thesis by (auto dest: set_takeWhileD)
    next
      case 2
      with "1.IH"[OF False] have "set l \<subseteq> set (after_break (dropWhile (\<lambda>c. \<not> is_linebreak c) s))"
        by simp
      also have "\<dots> \<subseteq> set (dropWhile (\<lambda>c. \<not> is_linebreak c) s)" by (rule ab)
      also have "\<dots> \<subseteq> set s" by (auto dest: set_dropWhileD)
      finally show ?thesis .
    qed
  qed
qed

lemma strip_sublist: "\<exists>a b. s = a @ strip s @ b"
proof -
  let ?t = "dropWhile is_space s"
  have 1: "s = takeWhile is_space s @ ?t" by simp
  have "rev (rev ?t) = rev (takeWhile is_space (rev ?t) @ dropWhile is_space (rev ?t))"
    by (simp only: takeWhile_dropWhile_id)
  then have "?t = strip s @ rev (takeWhile is_space (rev ?t))"
    by (simp only: rev_rev_ident rev_append strip_def)
  with 1 have "s = takeWhile is_space s @ strip s @ rev (takeWhile is_space (rev ?t))"
    by metis
  then show ?thesis by blast
qed

lemma strip_chars: "set (strip s) \<subseteq> set s"
proof
  fix x assume "x \<in> set (strip s)"
  then have "x \<in> set (dropWhile is_space (rev (dropWhile is_space s)))"
    by (simp add: strip_def)
  then have "x \<in> set (rev (dropWhile is_space s))" by (rule set_dropWhileD)
  then have "x \<in> set (dropWhile is_space s)" by simp
  then show "x \<in> set s" by (rule set_dropWhileD)
qed

lemma strip_fixed:
  "s \<noteq> [] \<Longrightarrow> \<not> is_space (hd s) \<Longrightarrow> \<not> is_space (last s) \<Longrightarrow> strip s = s"
proof -
  assume a: "s \<noteq> []" "\<not> is_space (hd s)" "\<not> is_space (last s)"
  then have 1: "dropWhile is_space s = s" by (cases s) auto
  from a have "rev s \<noteq> []" "\<not> is_space (hd (rev s))" by (auto simp: hd_rev)
  then have 2: "dropWhile is_space (rev s) = rev s" by (cases "rev s") auto
  show ?thesis by (simp add: strip_def 1 2)
qed

lemma strip_ends:
  assumes "strip s \<noteq> []"
  shows "\<not> is_space (hd (strip s))" and "\<not> is_space (last (strip s))"
proof -
  let ?t = "dropWhile is_space s"
  let ?u = "dropWhile is_space (rev ?t)"
  from assms have u: "?u \<noteq> []" by (simp add: strip_def)
  have t: "?t \<noteq> []"
  proof
    assume "?t = []"
    then have "?u = []" by (simp only: rev.simps dropWhile.simps)
    with u show False ..
  qed
  have "\<not> is_space (hd ?u)" using u by (rule hd_dropWhile)
  then show "\<not> is_space (last (strip s))" using u by (simp add: strip_def last_rev)
  have ht: "\<not> is_space (hd ?t)" using t by (rule hd_dropWhile)
  have "\<exists>p. rev ?t = p @ ?u" by (metis takeWhile_dropWhile_id)
  then obtain p where p: "rev ?t = p @ ?u" ..
  have "last (p @ ?u) = last ?u" using u by (rule last_appendR)
  with p have "last ?u = last (rev ?t)" by (simp only:)
  also have "\<dots> = hd ?t" using t by (simp add: last_rev)
  finally have "last ?u = hd ?t" .
  with ht show "\<not> is_space (hd (strip s))" using u by (simp add: strip_def hd_rev)
qed

lemma strip_all_space: "\<forall>c\<in>set s. is_space c \<Longrightarrow> strip s = []"
proof -
  assume "\<forall>c\<in>set s. is_space c"
  then have "dropWhile is_space s = []" by (simp only: dropWhile_eq_Nil_conv)
  then show ?thesis by (simp only: strip_def rev.simps dropWhile.simps)
qed



lemma split_from_no_sep:
  assumes "sep \<noteq> []"
    and "\<forall>ys zs. rev cur = ys @ zs \<longrightarrow> zs \<noteq> [] \<longrightarrow> take (length sep) (zs @ s) \<noteq> sep"
    and "p \<in> set (split_from sep cur s)"
  shows "\<not> has_sub sep p"
  using assms
proof (induction sep cur s rule: split_from.induct)
  case (1 sep cur)
  then have p: "p = rev cur" by simp
  show ?case
  proof
    assume "has_sub sep p"
    then obtain xs ys where "rev cur = xs @ sep @ ys" using p by (auto simp: has_sub_def)
    with "1.prems"(2) "1.prems"(1) have "take (length sep) ((sep @ ys) @ []) \<noteq> sep"
      by blast
    then show False by simp
  qed
next
  case (2 sep cur c cs)
  show ?case
  proof (cases "take (length sep) (c # cs) = sep")
    case True
    with "2.prems" have "p = rev cur \<or> p \<in> set (split_from sep [] (drop (length sep) (c # cs)))"
      by simp
    then show ?thesis
    proof
      assume p: "p = rev cur"
      show ?thesis
      proof
        assume "has_sub sep p"
        then obtain xs ys where "rev cur = xs @ sep @ ys" using p by (auto simp: has_sub_def)
        with "2.prems"(2) "2.prems"(1) have "take (length sep) ((sep @ ys) @ c # cs) \<noteq> sep"
          by blast
        then show False by simp
      qed
    next
      assume "p \<in> set (split_from sep [] (drop (length sep) (c # cs)))"
      with "2.IH"(1) True "2.prems"(1) show ?thesis by simp
    qed
  next
    case False
    with "2.prems" have pin: "p \<in> set (split_from sep (c # cur) cs)" by simp
    have inv: "\<forall>ys zs. rev (c # cur) = ys @ zs \<longrightarrow> zs \<noteq> [] \<longrightarrow> take (length sep) (zs @ cs) \<noteq> sep"
    proof (intro allI impI)
      fix ys zs
      assume e: "rev (c # cur) = ys @ zs" and nz: "zs \<noteq> []"
      from nz obtain zs' z where zs: "zs = zs' @ [z]" by (metis rev_exhaust)
      with e have "rev cur @ [c] = (ys @ zs') @ [z]" by simp
      then have rc: "rev cur = ys @ zs'" and z: "z = c" by auto
      show "take (length sep) (zs @ cs) \<noteq> sep"
      proof (cases "zs' = []")
        case True
        with zs z False show ?thesis by simp
      next
        case F: False
        with "2.prems"(2) rc have "take (length sep) (zs' @ c # cs) \<noteq> sep" by blast
        with zs z show ?thesis by simp
      qed
    qed
    from "2.IH"(2) False "2.prems"(1) inv pin show ?thesis by simp
  qed
qed

lemma py_split_no_sep: "sep \<noteq> [] \<Longrightarrow> p \<in> set (py_split sep s) \<Longrightarrow> \<not> has_sub sep p"
  unfolding py_split_def by (rule split_from_no_sep) auto

lemma split_from_whole:
  "\<not> has_sub sep s \<Longrightarrow> split_from sep cur s = [rev cur @ s]"
proof (induction sep cur s rule: split_from.induct)
  case (1 sep cur)
  show ?case by simp
next
  case (2 sep cur c cs)
  have ne: "take (length sep) (c # cs) \<noteq> sep"
  proof
    assume "take (length sep) (c # cs) = sep"
    then have "c # cs = [] @ sep @ drop (length sep) (c # cs)"
      by (metis append_Nil append_take_drop_id)
    with "2.prems" show False unfolding has_sub_def by blast
  qed
  have "\<not> has_sub sep cs"
  proof
    assume "has_sub sep cs"
    then obtain xs ys where "cs = xs @ sep @ ys" by (auto simp: has_sub_def)
    then have "c # cs = (c # xs) @ sep @ ys" by simp
    with "2.prems" show False unfolding has_sub_def by blast
  qed
  with "2.IH"(2) ne have "split_from sep (c # cur) cs = [rev (c # cur) @ cs]" by simp
  with ne show ?case by simp
qed

lemma py_split_whole: "\<not> has_sub sep s \<Longrightarrow> py_split sep s = [s]"
  by (simp add: py_split_def split_from_whole)

lemma split_from_chars:
  "p \<in> set (split_from sep cur s) \<Longrightarrow> set p \<subseteq> set cur \<union> set s"
proof (induction sep cur s rule: split_from.induct)
  case (1 sep cur)
  then show ?case by simp
next
  case (2 sep cur c cs)
  show ?case
  proof (cases "sep \<noteq> [] \<and> take (length sep) (c # cs) = sep")
    case True
    with "2.prems" have "p = rev cur \<or> p \<in> set (split_from sep [] (drop (length sep) (c # cs)))"
      by simp
    then show ?thesis
    proof
      assume "p = rev cur" then show ?thesis by auto
    next
      assume "p \<in> set (split_from sep [] (drop (length sep) (c # cs)))"
      with "2.IH"(1) True have "set p \<subseteq> set (drop (length sep) (c # cs))" by simp
      moreover have "set (drop (length sep) (c # cs)) \<subseteq> set (c # cs)" by (rule set_drop_subset)
      ultimately show ?thesis by blast
    qed
  next
    case False
    with "2.prems" have "p \<in> set (split_from sep (c # cur) cs)" by auto
    with "2.IH"(2) False have "set p \<subseteq> set (c # cur) \<union> set cs" by blast
    then show ?thesis by auto
  qed
qed

lemma py_split_chars: "p \<in> set (py_split sep s) \<Longrightarrow> set p \<subseteq> set s"
  using split_from_chars[of p sep "[]" s] by (simp add: py_split_def)

lemma strip_no_sub: "\<not> has_sub sep s \<Longrightarrow> \<not> has_sub sep (strip s)"
proof
  assume n: "\<not> has_sub sep s" and "has_sub sep (strip s)"
  then obtain xs ys where x: "strip s = xs @ sep @ ys" by (auto simp: has_sub_def)
  obtain a b where "s = a @ strip s @ b" using strip_sublist by blast
  with x have "s = (a @ xs) @ sep @ (ys @ b)" by simp
  with n show False unfolding has_sub_def by blast
qed

lemma splitlines_single:
  assumes "x \<noteq> []" and "\<forall>c\<in>set x. \<not> is_linebreak c"
  shows "splitlines x = [x]"
proof -
  from assms(2) have t: "takeWhile (\<lambda>c. \<not> is_linebreak c) x = x"
    and d: "dropWhile (\<lambda>c. \<not> is_linebreak c) x = []" by simp_all
  have e: "splitlines [] = []" by (simp add: splitlines_unfold)
  show ?thesis using assms(1) by (subst splitlines_unfold) (simp add: t d after_break_def e)
qed

lemma splitlines_cons:
  assumes "\<forall>c\<in>set x. \<not> is_linebreak c"
  shows "splitlines (x @ 0x0A # r) = x # splitlines r"
proof -
  have lb: "is_linebreak 0x0A" by (simp add: is_linebreak_def)
  from assms lb have t: "takeWhile (\<lambda>c. \<not> is_linebreak c) (x @ 0x0A # r) = x"
    by (simp add: takeWhile_append2 takeWhile_append1)
  from assms lb have d: "dropWhile (\<lambda>c. \<not> is_linebreak c) (x @ 0x0A # r) = 0x0A # r"
    by (simp add: dropWhile_append2)
  have a: "after_break (0x0A # r) = r" by (cases r) (simp_all add: after_break_def)
  show ?thesis by (subst splitlines_unfold) (simp add: t d a)
qed

lemma splitlines_join:
  "\<forall>f\<in>set fs. f \<noteq> [] \<and> (\<forall>c\<in>set f. \<not> is_linebreak c) \<Longrightarrow>
   splitlines (py_join [0x0A] fs) = fs"
proof (induction "[0x0A::nat]" fs rule: py_join.induct)
  case 1
  show ?case by (simp add: splitlines_unfold)
next
  case (2 x)
  then show ?case by (simp add: splitlines_single)
next
  case (3 x y ys)
  then show ?case by (simp add: splitlines_cons)
qed



subsection \<open>The text extractor\<close>

lemma lit_two_spaces: "lit ''  '' = [0x20, 0x20]"
  by (simp add: lit_def)

lemma split_from_double_space:
  "split_from [0x20, 0x20] cur s = split_double_space_from cur s"
proof (induction cur s rule: split_double_space_from.induct)
  case (1 cur a b r)
  then show ?case by simp
next
  case (2 cur a)
  show ?case by simp
next
  case (3 cur)
  show ?case by simp
qed

lemma py_split_double_space:
  "py_split (lit ''  '') line = split_double_space_from [] line"
  by (simp add: py_split_def lit_two_spaces split_from_double_space)

lemma text_chunks_spec:
  "text_chunks lines = map strip (concat (map (split_double_space_from []) lines))"
  by (simp add: text_chunks_def py_split_double_space map_concat comp_def)

lemma concat_map_filter:
  "(\<And>x. x \<in> set xs \<Longrightarrow> P x \<Longrightarrow> f x = g x) \<Longrightarrow> (\<And>x. x \<in> set xs \<Longrightarrow> \<not> P x \<Longrightarrow> f x = [])
   \<Longrightarrow> concat (map f xs) = concat (map g (filter P xs))"
  by (induction xs) auto

lemma named_script_style:
  "is_named [lit ''script'', lit ''style''] n \<Longrightarrow> visible n = []"
  by (cases n) auto

lemma visible_extract_in:
  "\<not> is_named [lit ''script'', lit ''style''] n
   \<Longrightarrow> node_text (extract_in [lit ''script'', lit ''style''] n) = visible n"
proof (induction n)
  case (Tag n attrs cs)
  have "concat (map visible cs)
          = concat (map (\<lambda>c. node_text (extract_in [lit ''script'', lit ''style''] c))
                      (filter (\<lambda>c. \<not> is_named [lit ''script'', lit ''style''] c) cs))"
    by (rule concat_map_filter) (auto simp: Tag.IH named_script_style)
  with Tag.prems show ?case by (simp add: comp_def)
next
  case (NavigableString s)
  show ?case by simp
next
  case (Comment s)
  show ?case by simp
qed

lemma get_text_extract_all:
  "get_text (extract_all [lit ''script'', lit ''style''] document) = spec_visible_text document"
proof -
  have "concat (map visible document)
          = concat (map (\<lambda>c. node_text (extract_in [lit ''script'', lit ''style''] c))
                      (filter (\<lambda>c. \<not> is_named [lit ''script'', lit ''style''] c) document))"
    by (rule concat_map_filter) (auto simp: visible_extract_in named_script_style)
  then show ?thesis
    by (simp add: get_text_def extract_all_def spec_visible_text_def comp_def)
qed

lemma extract_in_clean:
  "\<not> is_named names n \<Longrightarrow> \<not> mentions names (extract_in names n)"
  by (induction n) auto

lemma extract_all_clean: "\<not> list_ex (mentions names) (extract_all names document)"
  by (auto simp: extract_all_def list_ex_iff extract_in_clean)

lemma invisible_chars: "invisible n \<Longrightarrow> c \<in> set (visible n) \<Longrightarrow> is_space c"
  by (induction n arbitrary: c) (auto split: if_splits)

lemma invisible_document:
  "\<forall>n\<in>set document. invisible n \<Longrightarrow> \<forall>c\<in>set (spec_visible_text document). is_space c"
  by (auto simp: spec_visible_text_def dest: invisible_chars)

lemma after_break_first:
  "after_break (c # cs) = (if c = 0x0D \<and> take 1 cs = [0x0A] then drop 1 cs else cs)"
  by (cases cs) (auto simp: after_break_def)

lemma spec_lines_from_splitlines:
  "\<forall>c\<in>set cur. \<not> is_linebreak c \<Longrightarrow> spec_lines_from cur s = splitlines (rev cur @ s)"
proof (induction cur s rule: spec_lines_from.induct)
  case (1 cur)
  show ?case
  proof (cases "cur = []")
    case True
    then show ?thesis by (simp add: splitlines.simps)
  next
    case False
    have "splitlines (rev cur) = [rev cur]"
    proof (rule splitlines_single)
      show "rev cur \<noteq> []" using False by simp
      show "\<forall>c\<in>set (rev cur). \<not> is_linebreak c" using "1.prems" by simp
    qed
    with False show ?thesis by simp
  qed
next
  case (2 cur c cs)
  show ?case
  proof (cases "is_linebreak c")
    case True
    have nb: "\<And>x. x \<in> set (rev cur) \<Longrightarrow> \<not> is_linebreak x"
      using "2.prems" by simp
    have "takeWhile (\<lambda>x. \<not> is_linebreak x) (rev cur @ c # cs)
            = rev cur @ takeWhile (\<lambda>x. \<not> is_linebreak x) (c # cs)"
      by (rule takeWhile_append2) (rule nb)
    with True have t: "takeWhile (\<lambda>x. \<not> is_linebreak x) (rev cur @ c # cs) = rev cur"
      by simp
    have "dropWhile (\<lambda>x. \<not> is_linebreak x) (rev cur @ c # cs)
            = dropWhile (\<lambda>x. \<not> is_linebreak x) (c # cs)"
      by (rule dropWhile_append2) (rule nb)
    with True have d: "dropWhile (\<lambda>x. \<not> is_linebreak x) (rev cur @ c # cs) = c # cs"
      by simp
    have "splitlines (rev cur @ c # cs) = rev cur # splitlines (after_break (c # cs))"
      by (subst splitlines_unfold) (simp add: t d)
    moreover from "2.IH"(1)[OF True]
    have "spec_lines_from [] (if c = 0x0D \<and> take 1 cs = [0x0A] then drop 1 cs else cs)
            = splitlines (if c = 0x0D \<and> take 1 cs = [0x0A] then drop 1 cs else cs)"
      by simp
    ultimately show ?thesis using True by (simp add: after_break_first)
  next
    case False
    with "2.prems" have "\<forall>x\<in>set (c # cur). \<not> is_linebreak x" by simp
    from "2.IH"(2)[OF False this] False show ?thesis by simp
  qed
qed

lemma spec_lines: "spec_lines_from [] s = splitlines s"
  using spec_lines_from_splitlines[of "[]" s] by simp

lemma spec_lstrip_dropWhile: "spec_lstrip s = dropWhile is_space s"
  by (induction s) auto

lemma dropWhile_rev_snoc:
  "dropWhile is_space (rev cs @ [c]) =
     (if \<forall>x\<in>set cs. is_space x then dropWhile is_space [c]
      else dropWhile is_space (rev cs) @ [c])"
  by (auto simp: dropWhile_append)

lemma spec_rstrip_from_rev:
  "spec_rstrip_from held s =
     (if \<forall>x\<in>set s. is_space x then [] else rev held @ rev (dropWhile is_space (rev s)))"
proof (induction s arbitrary: held)
  case Nil
  show ?case by simp
next
  case (Cons c cs)
  show ?case
  proof (cases "is_space c")
    case True
    then show ?thesis by (simp add: Cons.IH dropWhile_rev_snoc)
  next
    case False
    then show ?thesis by (simp add: Cons.IH dropWhile_rev_snoc)
  qed
qed

lemma spec_strip_strip: "spec_strip s = strip s"
proof -
  let ?t = "dropWhile is_space s"
  have "spec_rstrip_from [] ?t = rev (dropWhile is_space (rev ?t))"
  proof (cases "\<forall>x\<in>set ?t. is_space x")
    case True
    then have "dropWhile is_space (rev ?t) = []"
      by (simp only: dropWhile_eq_Nil_conv set_rev)
    with True show ?thesis by (simp add: spec_rstrip_from_rev)
  next
    case False
    then show ?thesis by (simp add: spec_rstrip_from_rev)
  qed
  then show ?thesis by (simp only: spec_strip_def strip_def spec_lstrip_dropWhile)
qed

lemma join_lines_py_join: "join_lines fs = py_join [0x0A] fs"
proof (induction "[0x0A::nat]" fs rule: py_join.induct)
  case 1
  show ?case by simp
next
  case (2 x)
  show ?case by simp
next
  case (3 x y ys)
  then show ?case by simp
qed

lemma soup_text_spec: "soup_text parser src = spec_clean_text (parser src)"
proof -
  have s: "spec_strip = strip" by (rule ext) (rule spec_strip_strip)
  show ?thesis
    by (simp add: soup_text_def spec_clean_text_def normalize_text_def text_lines_def
      text_chunks_spec Let_def get_text_extract_all spec_lines s join_lines_py_join)
qed

lemma normalize_text_fragments: "normalize_text text = py_join [0x0A] (fragments text)"
  by (simp add: normalize_text_def fragments_def)

lemma fragments_clean:
  assumes "f \<in> set (fragments text)"
  shows "clean_fragment f"
proof -
  from assms obtain l p where l: "l \<in> set (splitlines text)"
    and p: "p \<in> set (py_split [0x20, 0x20] (strip l))" and f: "f = strip p" and ne: "f \<noteq> []"
    by (auto simp: fragments_def text_chunks_def text_lines_def lit_two_spaces)
  have "set f \<subseteq> set p" unfolding f by (rule strip_chars)
  also have "\<dots> \<subseteq> set (strip l)" using p by (rule py_split_chars)
  also have "\<dots> \<subseteq> set l" by (rule strip_chars)
  finally have sub: "set f \<subseteq> set l" .
  have nb: "\<forall>c\<in>set f. \<not> is_linebreak c"
    using sub splitlines_no_break[OF l] by blast
  have "\<not> has_sub [0x20, 0x20] p" using p by (intro py_split_no_sep) simp_all
  then have nd: "\<not> has_sub [0x20, 0x20] f" unfolding f by (rule strip_no_sub)
  from ne have "strip p \<noteq> []" by (simp add: f)
  then have "\<not> is_space (hd f)" "\<not> is_space (last f)"
    unfolding f by (rule strip_ends)+
  with ne nb nd show ?thesis by (simp add: clean_fragment_def)
qed

lemma fragments_of_clean:
  assumes "\<forall>f\<in>set fs. clean_fragment f"
  shows "fragments (py_join [0x0A] fs) = fs"
proof -
  have sl: "splitlines (py_join [0x0A] fs) = fs"
    using assms by (intro splitlines_join) (auto simp: clean_fragment_def)
  have st: "map strip fs = fs"
    using assms by (intro map_idI strip_fixed) (auto simp: clean_fragment_def)
  have ch: "text_chunks fs = fs" using assms
  proof (induction fs)
    case Nil
    show ?case by (simp add: text_chunks_def)
  next
    case (Cons f fs)
    then have c: "clean_fragment f" and IH: "text_chunks fs = fs" by simp_all
    from c have "py_split [0x20, 0x20] f = [f]"
      by (intro py_split_whole) (simp add: clean_fragment_def)
    moreover from c have "strip f = f" by (intro strip_fixed) (auto simp: clean_fragment_def)
    ultimately show ?case using IH by (simp add: text_chunks_def lit_two_spaces)
  qed
  have fl: "filter (\<lambda>chunk. chunk \<noteq> []) fs = fs"
    using assms by (auto simp: clean_fragment_def intro!: filter_True)
  show ?thesis by (simp add: fragments_def text_lines_def sl st ch fl)
qed

lemma normalize_idem: "normalize_text (normalize_text text) = normalize_text text"
  by (simp add: normalize_text_fragments fragments_of_clean fragments_clean)

lemma normalize_lines: "splitlines (normalize_text text) = fragments text"
  unfolding normalize_text_fragments
  by (rule splitlines_join) (use fragments_clean in \<open>auto simp: clean_fragment_def\<close>)

lemma normalize_no_empty_line: "[] \<notin> set (splitlines (normalize_text text))"
  by (simp add: normalize_lines fragments_def)

lemma normalize_blank:
  assumes "\<forall>c\<in>set text. is_space c"
  shows "normalize_text text = []"
proof -
  have "fragments text = []"
  proof (rule ccontr)
    assume "fragments text \<noteq> []"
    then obtain f where fin: "f \<in> set (fragments text)" by (cases "fragments text") auto
    then obtain l p where l: "l \<in> set (splitlines text)"
      and p: "p \<in> set (py_split [0x20, 0x20] (strip l))" and f: "f = strip p" and ne: "f \<noteq> []"
      by (auto simp: fragments_def text_chunks_def text_lines_def lit_two_spaces)
    from splitlines_chars[OF l] assms have "\<forall>c\<in>set l. is_space c" by blast
    then have "strip l = []" by (rule strip_all_space)
    with p have "p = []" by (simp add: py_split_def)
    with f ne show False by (simp add: strip_def)
  qed
  then show ?thesis by (simp add: normalize_text_fragments)
qed

subsection \<open>Computations and the browser session\<close>

lemma bind_Inr: "m s = (Inr a, s1) \<Longrightarrow> bind m f s = f a s1"
  by (simp add: bind_def)

lemma bind_success:
  "bind m f s = (Inr b, s') \<Longrightarrow> \<exists>a s1. m s = (Inr a, s1) \<and> f a s1 = (Inr b, s')"
  by (auto simp: bind_def split: prod.splits sum.splits)

lemma call_keeps: "call f s = (r, s') \<Longrightarrow> events s' = events s \<and> next_id s' = next_id s"
  by (auto simp: call_def split: prod.splits)

lemma webdriver_success:
  assumes "webdriver E b p opts s = (Inr d, s')"
  shows "d = next_id s \<and> events s' = events s @ [Launched d]"
proof -
  from assms obtain u s1 where c: "call (launch E b p opts) s = (Inr u, s1)"
    and n: "new_session s1 = (Inr d, s')"
    unfolding webdriver_def by (blast dest: bind_success)
  from call_keeps[OF c] n show ?thesis by (auto simp: new_session_def)
qed

lemma add_experimental_option_keeps:
  "add_experimental_option E opts n v s = (r, s') \<Longrightarrow> s' = s"
  by (auto simp: add_experimental_option_def ret_def raise_def split: if_splits)

lemma installed_webdriver_success:
  assumes "bind (call (manager_install E m)) (\<lambda>path. webdriver E b (Some path) opts) s = (Inr d, s')"
  shows "d = next_id s \<and> events s' = events s @ [Launched d]"
proof -
  from assms obtain path s1 where c: "call (manager_install E m) s = (Inr path, s1)"
    and w: "webdriver E b (Some path) opts s1 = (Inr d, s')"
    by (blast dest: bind_success)
  from call_keeps[OF c] webdriver_success[OF w] show ?thesis by simp
qed

lemma create_driver_success:
  assumes "create_driver E s = (Inr d, s')"
  shows "d = next_id s \<and> events s' = events s @ [Launched d]"
proof (cases "map_of options_available (selenium_web_browser E)")
  case None
  with assms show ?thesis by (simp add: create_driver_def raise_def)
next
  case (Some c)
  with assms obtain opts s1 where
    a: "add_experimental_option E \<lparr>cls = c, experimental_options = [], arguments = []\<rparr>
          (lit ''detach'') True s = (Inr opts, s1)"
    and rest: "(let options = add_argument opts user_agent
               in if selenium_web_browser E = lit ''firefox''
                  then bind (call (manager_install E GeckoDriverManager))
                         (\<lambda>path. webdriver E Firefox (Some path) options)
                  else if selenium_web_browser E = lit ''safari''
                  then webdriver E Safari None options
                  else
                    let options =
                          (if platform E = lit ''linux'' \<or> platform E = lit ''linux2''
                           then add_argument
                                  (add_argument options (lit ''--disable-dev-shm-usage''))
                                  (lit ''--remote-debugging-port=9222'')
                           else options);
                        options = add_argument options (lit ''--no-sandbox'');
                        options =
                          (if selenium_headless E
                           then add_argument (add_argument options (lit ''--headless''))
                                  (lit ''--disable-gpu'')
                           else options)
                    in bind (call (manager_install E ChromeDriverManager))
                         (\<lambda>path. webdriver E Chrome (Some path) options)) s1 = (Inr d, s')"
    unfolding create_driver_def by (auto dest: bind_success)
  from add_experimental_option_keeps[OF a] have s1: "s1 = s" .
  from rest show ?thesis
    unfolding s1 Let_def
    by (auto split: if_splits dest: installed_webdriver_success webdriver_success)
qed

lemma create_driver_unsupported:
  assumes "selenium_web_browser E \<noteq> lit ''chrome''"
    and "selenium_web_browser E \<noteq> lit ''safari''"
    and "selenium_web_browser E \<noteq> lit ''firefox''"
  shows "create_driver E s = (Inl (KeyError (selenium_web_browser E)), s)"
  using assms by (simp add: create_driver_def options_available_def raise_def)

lemma close_browser_success:
  assumes "close_browser E d s = (Inr u, s')"
  shows "events s' = events s @ [Quit d]"
proof -
  from assms obtain v s1 where c: "call (driver_quit E d) s = (Inr v, s1)"
    and e: "s' = s1\<lparr>events := events s1 @ [Quit d]\<rparr>"
    unfolding close_browser_def by (auto dest!: bind_success)
  from call_keeps[OF c] e show ?thesis by simp
qed

lemma scrape_text_success:
  assumes "scrape_text_with_selenium E url d s = (Inr (d', text), s')"
  shows "d' = d \<and> events s' = events s"
proof -
  from assms obtain u1 s1 u2 s2 src s3 where
    1: "call (driver_get E d url) s = (Inr u1, s1)"
    and 2: "call (wait_until_located E d 10 TAG_NAME (lit ''body'')) s1 = (Inr u2, s2)"
    and 3: "call (execute_script E d (lit ''return document.body.outerHTML;'')) s2 = (Inr src, s3)"
    and 4: "ret (d, soup_text (html_parser E) src) s3 = (Inr (d', text), s')"
    unfolding scrape_text_with_selenium_def by (blast dest: bind_success)
  from call_keeps[OF 1] call_keeps[OF 2] call_keeps[OF 3] 4 show ?thesis
    by (simp add: ret_def)
qed

lemma add_header_success:
  assumes "add_header E d s = (Inr u, s')"
  shows "events s' = events s"
proof -
  from assms obtain js s1 v s2 where
    1: "call (read_file E (file_dir E @ lit ''/js/overlay.js'')) s = (Inr js, s1)"
    and 2: "call (execute_script E d js) s1 = (Inr v, s2)"
    and 3: "ret () s2 = (Inr u, s')"
    unfolding add_header_def by (blast dest: bind_success)
  from call_keeps[OF 1] call_keeps[OF 2] 3 show ?thesis by (simp add: ret_def)
qed

lemma scrape_links_success:
  assumes "scrape_links_with_selenium E d url s = (Inr links, s')"
  shows "events s' = events s"
proof -
  from assms obtain src s1 where
    1: "call (page_source E d) s = (Inr src, s1)"
    and 2: "ret (format_hyperlinks (extract_hyperlinks
               (extract_all [lit ''script'', lit ''style''] (html_parser E src)) url)) s1 = (Inr links, s')"
    unfolding scrape_links_with_selenium_def Let_def by (blast dest: bind_success)
  from call_keeps[OF 1] 2 show ?thesis by (simp add: ret_def)
qed

lemma limit_links_take: "limit_links links = take 5 links"
  by (simp add: limit_links_def)

lemma browse_website_events:
  assumes "browse_website E url question s = (Inr (msg, d), s')"
  shows "d = next_id s \<and> events s' = events s @ [Launched d, Quit d]"
proof -
  from assms obtain d0 s1 where 1: "create_driver E s = (Inr d0, s1)"
    and r1: "bind (scrape_text_with_selenium E url d0)
          (\<lambda>(driver, text). bind (add_header E driver)
             (\<lambda>_. bind (call (summarize_text E url text question driver))
                (\<lambda>summary_text. bind (scrape_links_with_selenium E driver url)
                   (\<lambda>links.
                      let links = limit_links links
                      in bind (close_browser E driver)
                           (\<lambda>_. ret (answer (py_repr E) summary_text links, driver)))))) s1
         = (Inr (msg, d), s')"
    unfolding browse_website_def by (blast dest: bind_success)
  from bind_success[OF r1] obtain p s2 where st2: "scrape_text_with_selenium E url d0 s1 = (Inr p, s2)"
    and rr2: "(case p of (driver, text) \<Rightarrow> bind (add_header E driver)
             (\<lambda>_. bind (call (summarize_text E url text question driver))
                (\<lambda>summary_text. bind (scrape_links_with_selenium E driver url)
                   (\<lambda>links.
                      let links = limit_links links
                      in bind (close_browser E driver)
                           (\<lambda>_. ret (answer (py_repr E) summary_text links, driver)))))) s2
         = (Inr (msg, d), s')"
    by blast
  obtain d1 tx where p: "p = (d1, tx)" by (cases p)
  from st2 p have 2: "scrape_text_with_selenium E url d0 s1 = (Inr (d1, tx), s2)" by simp
  from rr2 p have r2: "bind (add_header E d1)
             (\<lambda>_. bind (call (summarize_text E url tx question d1))
                (\<lambda>summary_text. bind (scrape_links_with_selenium E d1 url)
                   (\<lambda>links.
                      let links = limit_links links
                      in bind (close_browser E d1)
                           (\<lambda>_. ret (answer (py_repr E) summary_text links, d1))))) s2
         = (Inr (msg, d), s')"
    by simp
  from r2 obtain u s3 where 3: "add_header E d1 s2 = (Inr u, s3)"
    and r3: "bind (call (summarize_text E url tx question d1))
                (\<lambda>summary_text. bind (scrape_links_with_selenium E d1 url)
                   (\<lambda>links.
                      let links = limit_links links
                      in bind (close_browser E d1)
                           (\<lambda>_. ret (answer (py_repr E) summary_text links, d1)))) s3
         = (Inr (msg, d), s')"
    by (blast dest: bind_success)
  from r3 obtain summ s4 where 4: "call (summarize_text E url tx question d1) s3 = (Inr summ, s4)"
    and r4: "bind (scrape_links_with_selenium E d1 url)
                   (\<lambda>links.
                      let links = limit_links links
                      in bind (close_browser E d1)
                           (\<lambda>_. ret (answer (py_repr E) summ links, d1))) s4
         = (Inr (msg, d), s')"
    by (blast dest: bind_success)
  from r4 obtain links s5 where 5: "scrape_links_with_selenium E d1 url s4 = (Inr links, s5)"
    and r5: "bind (close_browser E d1)
                 (\<lambda>_. ret (answer (py_repr E) summ (limit_links links), d1)) s5
         = (Inr (msg, d), s')"
    unfolding Let_def by (blast dest: bind_success)
  from r5 obtain v s6 where 6: "close_browser E d1 s5 = (Inr v, s6)"
    and r6: "ret (answer (py_repr E) summ (limit_links links), d1) s6 = (Inr (msg, d), s')"
    by (blast dest: bind_success)
  from r6 have e: "d = d1" "s' = s6" by (simp_all add: ret_def)
  from create_driver_success[OF 1] scrape_text_success[OF 2] add_header_success[OF 3]
    call_keeps[OF 4] scrape_links_success[OF 5] close_browser_success[OF 6] e
  show ?thesis by simp
qed

lemma open_website_events:
  assumes "open_website_in_browser E url question s = (Inr (msg, d), s')"
  shows "d = next_id s \<and> events s' = events s @ [Launched d]"
proof -
  from assms obtain d0 s1 u1 s2 u2 s3 where 1: "create_driver E s = (Inr d0, s1)"
    and 2: "call (driver_get E d0 url) s1 = (Inr u1, s2)"
    and 3: "call (wait_until_located E d0 10 TAG_NAME (lit ''body'')) s2 = (Inr u2, s3)"
    and 4: "ret (lit ''Website is now open using the selenium webdriver'', d0) s3 = (Inr (msg, d), s')"
    unfolding open_website_in_browser_def by (blast dest: bind_success)
  from create_driver_success[OF 1] call_keeps[OF 2] call_keeps[OF 3] 4
  show ?thesis by (simp add: ret_def)
qed

lemma browse_website_result:
  assumes "create_driver E s0 = (Inr d, s1)"
    and "scrape_text_with_selenium E url d s1 = (Inr (d', text), s2)"
    and "add_header E d' s2 = (Inr (), s3)"
    and "call (summarize_text E url text question d') s3 = (Inr summary_text, s4)"
    and "scrape_links_with_selenium E d' url s4 = (Inr links, s5)"
    and "close_browser E d' s5 = (Inr (), s6)"
  shows "browse_website E url question s0 =
           (Inr (lit ''Answer gathered from website: '' @ summary_text
                 @ [0x20, 0x0A, 0x20, 0x0A, 0x20] @ lit ''Links: ''
                 @ str_of_list (py_repr E) (take 5 links), d), s6)"
proof -
  from scrape_text_success[OF assms(2)] have d: "d' = d" by simp
  show ?thesis
    unfolding browse_website_def
    using assms
    by (simp add: bind_Inr d Let_def limit_links_take answer_def ret_def)
qed



subsection \<open>Resolved URLs\<close>













subsection \<open>The helpers\<close>








lemma enter_text_propagates:
  assumes "call (find_element E d XPATH (Some (lit ''/html/body''))) s = (Inr body, s1)"
    and "call (element_text E body) s1 = (Inr body_text, s2)"
    and "call (find_element E d field_name None) s2 = (Inl e, s3)"
  shows "enter_text_into_form_field E d field_name t s = (Inl e, s3)"
  using assms by (simp add: enter_text_into_form_field_def bind_def)

lemma spec_clean_text_normalize:
  "spec_clean_text document =
     normalize_text (get_text (extract_all [lit ''script'', lit ''style''] document))"
  using soup_text_spec[of "\<lambda>_. document" "[]"] by (simp add: soup_text_def)

section \<open>The claims\<close>

text \<open>
  C1. For every raw markup string, the text that \<open>scrape_text_with_selenium\<close> returns
  once the page is fetched is exactly the result of the specification's steps on the
  parsed document: the script and style elements are removed, all of them, wherever
  they stand, and nothing else; the remaining visible text is split on line breaks,
  each line is stripped and split on double spaces, each fragment is stripped, the
  empty fragments are discarded and the others are joined with single newlines. The
  text has no empty line.
\<close>

theorem scrape_text_follows_spec:
  "scrape_text_with_selenium E url driver s =
     (case bind (call (driver_get E driver url))
             (\<lambda>_. bind (call (wait_until_located E driver 10 TAG_NAME (lit ''body'')))
                (\<lambda>_. call (execute_script E driver (lit ''return document.body.outerHTML;''))))
             s of
        (Inl e, s') \<Rightarrow> (Inl e, s')
      | (Inr markup, s') \<Rightarrow> (Inr (driver, spec_clean_text (html_parser E markup)), s'))
   \<and> \<not> list_ex (mentions [lit ''script'', lit ''style''])
          (extract_all [lit ''script'', lit ''style''] document)
   \<and> get_text (extract_all [lit ''script'', lit ''style''] document)
       = spec_visible_text document
   \<and> [] \<notin> set (splitlines (spec_clean_text document))"
proof (intro conjI)
  show "scrape_text_with_selenium E url driver s =
     (case bind (call (driver_get E driver url))
             (\<lambda>_. bind (call (wait_until_located E driver 10 TAG_NAME (lit ''body'')))
                (\<lambda>_. call (execute_script E driver (lit ''return document.body.outerHTML;''))))
             s of
        (Inl e, s') \<Rightarrow> (Inl e, s')
      | (Inr markup, s') \<Rightarrow> (Inr (driver, spec_clean_text (html_parser E markup)), s'))"
    by (simp add: scrape_text_with_selenium_def bind_def ret_def soup_text_spec
        split: prod.splits sum.splits)
  show "\<not> list_ex (mentions [lit ''script'', lit ''style''])
          (extract_all [lit ''script'', lit ''style''] document)"
    by (rule extract_all_clean)
  show "get_text (extract_all [lit ''script'', lit ''style''] document)
       = spec_visible_text document"
    by (rule get_text_extract_all)
  show "[] \<notin> set (splitlines (spec_clean_text document))"
    by (simp only: spec_clean_text_normalize normalize_no_empty_line not_False_eq_True)
qed

theorem scrape_text_follows_spec_witness:
  "scrape_text_with_selenium demo_env demo_url 0 demo_world = (Inr (0, demo_text), demo_world)
   \<and> spec_visible_text demo_soup
       = lit '' Hi   there '' @ [0x0A, 0x0A] @ lit ''topAboutBCEFGHIJKL''
   \<and> spec_clean_text demo_soup = demo_text
   \<and> splitlines demo_text = [lit ''Hi'', lit ''there'', lit ''topAboutBCEFGHIJKL'']"
proof -
  have f: "bind (call (driver_get demo_env 0 demo_url))
             (\<lambda>_. bind (call (wait_until_located demo_env 0 10 TAG_NAME (lit ''body'')))
                (\<lambda>_. call (execute_script demo_env 0 (lit ''return document.body.outerHTML;''))))
             demo_world = (Inr (lit ''<body>''), demo_world)"
    by (simp add: demo_eval module_eval io_eval)
  have p: "html_parser demo_env (lit ''<body>'') = demo_soup"
    by (simp add: demo_env_def)
  have v: "spec_visible_text demo_soup
             = lit '' Hi   there '' @ [0x0A, 0x0A] @ lit ''topAboutBCEFGHIJKL''"
    by (simp add: spec_visible_text_def demo_soup_def anchor_def lit_def)
  have t: "spec_clean_text demo_soup = demo_text"
    by (simp add: spec_clean_text_def v spec_strip_def demo_text_def str_eval)
  have l: "splitlines demo_text = [lit ''Hi'', lit ''there'', lit ''topAboutBCEFGHIJKL'']"
    by (simp add: demo_text_def str_eval)
  from scrape_text_follows_spec[of demo_env demo_url 0 demo_world]
  have "scrape_text_with_selenium demo_env demo_url 0 demo_world
          = (Inr (0, spec_clean_text (html_parser demo_env (lit ''<body>''))), demo_world)"
    by (simp only: f prod.case sum.case)
  with p v t l show ?thesis by simp
qed

text \<open>
  C2. The list of links that \<open>browse_website\<close> keeps has at most five entries, whatever
  the page: it is the first five of the links scraped, in their order, and it has
  exactly five entries when more than five were scraped.
\<close>

theorem link_list_limited:
  "length (limit_links links) \<le> 5 \<and> limit_links links = take 5 links
   \<and> (5 < length links \<longrightarrow> length (limit_links links) = 5)"
  by (simp add: limit_links_def)

theorem link_list_limited_witness:
  "format_hyperlinks (extract_hyperlinks (extract_all [lit ''script'', lit ''style''] demo_soup)
     demo_url) = demo_links
   \<and> length demo_links = 12
   \<and> length (limit_links demo_links) = 5
   \<and> limit_links demo_links =
       [lit ''About (https://example.com/about)'', lit ''B (https://example.com/b)'',
        lit ''C (https://example.com/c)'',
        lit ''https://example.com/d (https://example.com/d)'',
        lit ''E (https://example.com/e)'']"
proof -
  have a: "format_hyperlinks (extract_hyperlinks
             (extract_all [lit ''script'', lit ''style''] demo_soup) demo_url) = demo_links"
    by (simp add: demo_eval module_eval io_eval url_eval text_eval str_eval)
  have n: "length demo_links = 12" by (simp add: demo_links_def)
  have t: "take 5 demo_links =
       [lit ''About (https://example.com/about)'', lit ''B (https://example.com/b)'',
        lit ''C (https://example.com/c)'',
        lit ''https://example.com/d (https://example.com/d)'',
        lit ''E (https://example.com/e)'']"
    by (simp add: demo_links_def)
  from n have "5 < length demo_links" by simp
  with link_list_limited[of demo_links]
  have "length (limit_links demo_links) = 5" and "limit_links demo_links = take 5 demo_links"
    by simp_all
  with a n t show ?thesis by simp
qed




text \<open>
  C4. When the parsed page has no visible content once its script and style elements
  are removed (every text string of it stands inside a script or style element, at
  whatever depth, or is white space only; a page with no text at all is such a page),
  \<open>scrape_text_with_selenium\<close> returns the empty text, and raises nothing.
\<close>

theorem empty_page_gives_empty_text:
  assumes "call (driver_get E driver url) s = (Inr (), s1)"
    and "call (wait_until_located E driver 10 TAG_NAME (lit ''body'')) s1 = (Inr (), s2)"
    and "call (execute_script E driver (lit ''return document.body.outerHTML;'')) s2
           = (Inr markup, s3)"
    and "\<forall>n\<in>set (html_parser E markup). invisible n"
  shows "scrape_text_with_selenium E url driver s = (Inr (driver, []), s3)"
proof -
  from assms(4)
  have "\<forall>c\<in>set (get_text (extract_all [lit ''script'', lit ''style''] (html_parser E markup))).
          is_space c"
    unfolding get_text_extract_all by (rule invisible_document)
  then have "soup_text (html_parser E) markup = []"
    unfolding soup_text_def by (rule normalize_blank)
  with assms(1-3) show ?thesis
    by (simp add: scrape_text_with_selenium_def bind_def ret_def)
qed

theorem empty_page_gives_empty_text_witness:
  "html_parser script_env (lit ''<body>'') = script_soup
   \<and> extract_all [lit ''script'', lit ''style''] script_soup = script_soup_left
   \<and> get_text script_soup_left = [0x0A, 0x20, 0x20]
   \<and> scrape_text_with_selenium script_env demo_url 0 demo_world = (Inr (0, []), demo_world)"
proof -
  have h1: "call (driver_get script_env 0 demo_url) demo_world = (Inr (), demo_world)"
    by (simp add: demo_eval io_eval)
  have h2: "call (wait_until_located script_env 0 10 TAG_NAME (lit ''body'')) demo_world
              = (Inr (), demo_world)"
    by (simp add: demo_eval io_eval)
  have h3: "call (execute_script script_env 0 (lit ''return document.body.outerHTML;''))
              demo_world = (Inr (lit ''<body>''), demo_world)"
    by (simp add: demo_eval io_eval)
  have p: "html_parser script_env (lit ''<body>'') = script_soup"
    by (simp add: script_env_def)
  have x: "extract_all [lit ''script'', lit ''style''] script_soup = script_soup_left"
    by (simp add: extract_all_def script_soup_def script_soup_left_def lit_def)
  have g: "get_text script_soup_left = [0x0A, 0x20, 0x20]"
    by (simp add: get_text_def script_soup_left_def)
  have h4: "\<forall>n\<in>set (html_parser script_env (lit ''<body>'')). invisible n"
    unfolding p by (simp add: script_soup_def is_space_def lit_def)
  from empty_page_gives_empty_text[OF h1 h2 h3 h4] p x g show ?thesis by simp
qed

text \<open>
  C5. When its collaborators succeed, \<open>browse_website\<close> returns a pair: the string
  "Answer gathered from website: ", the summary, " \n \n Links: " and the list of at
  most five links as Python prints it; and the handle of the browser session.
\<close>

theorem browse_website_answer:
  assumes "create_driver E s0 = (Inr d, s1)"
    and "scrape_text_with_selenium E url d s1 = (Inr (d', text), s2)"
    and "add_header E d' s2 = (Inr (), s3)"
    and "call (summarize_text E url text question d') s3 = (Inr summary_text, s4)"
    and "scrape_links_with_selenium E d' url s4 = (Inr links, s5)"
    and "close_browser E d' s5 = (Inr (), s6)"
  shows "browse_website E url question s0 =
           (Inr (lit ''Answer gathered from website: '' @ summary_text
                 @ [0x20, 0x0A, 0x20, 0x0A, 0x20] @ lit ''Links: ''
                 @ lit ''['' @ py_join (lit '', '') (map (py_repr E) (take 5 links)) @ lit '']'',
                 d), s6)"
  using browse_website_result[OF assms] by (simp add: str_of_list_def)

theorem browse_website_answer_witness:
  "browse_website demo_env demo_url (lit ''q'') demo_world = (Inr (demo_answer, 0), closed_world)"
proof -
  have h1: "create_driver demo_env demo_world = (Inr 0, launched_world)" by (simp add: demo_eval module_eval io_eval url_eval text_eval str_eval)
  have h2: "scrape_text_with_selenium demo_env demo_url 0 launched_world
              = (Inr (0, demo_text), launched_world)" by (simp add: demo_eval module_eval io_eval url_eval text_eval str_eval)
  have h3: "add_header demo_env 0 launched_world = (Inr (), launched_world)" by (simp add: demo_eval module_eval io_eval url_eval text_eval str_eval)
  have h4: "call (summarize_text demo_env demo_url demo_text (lit ''q'') 0) launched_world
              = (Inr (lit ''Summary''), launched_world)" by (simp add: demo_eval module_eval io_eval url_eval text_eval str_eval)
  have h5: "scrape_links_with_selenium demo_env 0 demo_url launched_world
              = (Inr demo_links, launched_world)" by (simp add: demo_eval module_eval io_eval url_eval text_eval str_eval)
  have h6: "close_browser demo_env 0 launched_world = (Inr (), closed_world)" by (simp add: demo_eval module_eval io_eval url_eval text_eval str_eval)
  have a: "lit ''Answer gathered from website: '' @ lit ''Summary''
             @ [0x20, 0x0A, 0x20, 0x0A, 0x20] @ lit ''Links: ''
             @ lit ''['' @ py_join (lit '', '') (map (py_repr demo_env) (take 5 demo_links))
             @ lit '']'' = demo_answer"
    by (simp add: demo_eval module_eval io_eval url_eval text_eval str_eval)
  from browse_website_answer[OF h1 h2 h3 h4 h5 h6] a show ?thesis by (simp only:)
qed

text \<open>
  C6. The helpers that look up a button or a field catch whatever the lookup raises and
  return an error string. \<open>navigate_by_click_button\<close>, \<open>get_updated_html\<close>,
  \<open>find_button_name\<close> and \<open>click_button\<close> do; \<open>enter_text_into_form_field\<close> has no
  handler, and here the exception of its field lookup reaches the caller.
\<close>

theorem enter_text_into_form_field_raises:
  "enter_text_into_form_field demo_env 0 (lit ''email'') (lit ''me@example.com'') demo_world
     = (Inl (Raised (lit ''NoSuchElementException'')), demo_world)"
proof -
  have h1: "call (find_element demo_env 0 XPATH (Some (lit ''/html/body''))) demo_world
              = (Inr 1, demo_world)" by (simp add: demo_eval module_eval io_eval url_eval text_eval str_eval)
  have h2: "call (element_text demo_env 1) demo_world = (Inr (lit ''OK''), demo_world)"
    by (simp add: demo_eval module_eval io_eval url_eval text_eval str_eval)
  have h3: "call (find_element demo_env 0 (lit ''email'') None) demo_world
              = (Inl (Raised (lit ''NoSuchElementException'')), demo_world)" by (simp add: demo_eval module_eval io_eval url_eval text_eval str_eval)
  show ?thesis by (rule enter_text_propagates[OF h1 h2 h3])
qed

text \<open>
  C7. When the configured browser is none of chrome, safari and firefox,
  \<open>create_driver\<close> fails with the lookup error of the dictionary of option classes,
  and the world is as before: no browser process was started.
\<close>

theorem create_driver_unsupported_browser:
  assumes "selenium_web_browser E \<noteq> lit ''chrome''"
    and "selenium_web_browser E \<noteq> lit ''safari''"
    and "selenium_web_browser E \<noteq> lit ''firefox''"
  shows "create_driver E s = (Inl (KeyError (selenium_web_browser E)), s)"
  using assms by (rule create_driver_unsupported)

theorem create_driver_unsupported_browser_witness:
  "selenium_web_browser edge_env = lit ''edge''
   \<and> create_driver edge_env demo_world = (Inl (KeyError (lit ''edge'')), demo_world)
   \<and> events demo_world = []"
proof -
  have b: "selenium_web_browser edge_env = lit ''edge''" by (simp add: edge_env_def)
  have h1: "selenium_web_browser edge_env \<noteq> lit ''chrome''" by (simp add: demo_eval module_eval io_eval url_eval text_eval str_eval)
  have h2: "selenium_web_browser edge_env \<noteq> lit ''safari''" by (simp add: demo_eval module_eval io_eval url_eval text_eval str_eval)
  have h3: "selenium_web_browser edge_env \<noteq> lit ''firefox''" by (simp add: demo_eval module_eval io_eval url_eval text_eval str_eval)
  from create_driver_unsupported_browser[OF h1 h2 h3, of demo_world] b
  show ?thesis by (simp add: demo_world_def)
qed

text \<open>
  C8, as the code has it. Each of \<open>browse_website\<close> and \<open>open_website_in_browser\<close>
  starts a browser session of its own first. \<open>browse_website\<close>, when it returns, has
  terminated that session. \<open>open_website_in_browser\<close> returns with the session still
  running and hands it to the caller, for the helpers that take a driver.
\<close>

theorem browser_session_lifecycle:
  "(browse_website E url question s = (Inr (msg, d), s')
      \<longrightarrow> d = next_id s \<and> events s' = events s @ [Launched d, Quit d])
   \<and> (open_website_in_browser E url question s = (Inr (msg2, d2), s2)
      \<longrightarrow> d2 = next_id s \<and> events s2 = events s @ [Launched d2])"
  using browse_website_events open_website_events by blast

theorem browser_session_lifecycle_witness:
  "browse_website demo_env demo_url (lit ''q'') demo_world = (Inr (demo_answer, 0), closed_world)
   \<and> events closed_world = [Launched 0, Quit 0]
   \<and> open_website_in_browser demo_env demo_url (lit ''q'') demo_world
       = (Inr (lit ''Website is now open using the selenium webdriver'', 0), launched_world)
   \<and> events launched_world = [Launched 0]"
proof -
  have b: "browse_website demo_env demo_url (lit ''q'') demo_world
             = (Inr (demo_answer, 0), closed_world)" by (simp add: demo_eval module_eval io_eval url_eval text_eval str_eval)
  have w: "open_website_in_browser demo_env demo_url (lit ''q'') demo_world
             = (Inr (lit ''Website is now open using the selenium webdriver'', 0), launched_world)"
    by (simp add: demo_eval module_eval io_eval url_eval text_eval str_eval)
  have e: "events demo_world = []" by (simp add: demo_world_def)
  from browser_session_lifecycle[of demo_env demo_url "lit ''q''" demo_world demo_answer 0
      closed_world "lit ''Website is now open using the selenium webdriver''" 0 launched_world]
    b w e
  have "events closed_world = [Launched 0, Quit 0]" and "events launched_world = [Launched 0]"
    by simp_all
  with b w show ?thesis by simp
qed

text \<open>
  C8, as the claim has it, fails: \<open>open_website_in_browser\<close> returns, and the session
  it started has not been terminated.
\<close>

theorem open_website_leaves_browser_running:
  "fst (open_website_in_browser demo_env demo_url (lit ''q'') demo_world)
     = Inr (lit ''Website is now open using the selenium webdriver'', 0)
   \<and> Launched 0 \<in> set (events (snd (open_website_in_browser demo_env demo_url (lit ''q'')
                                      demo_world)))
   \<and> Quit 0 \<notin> set (events (snd (open_website_in_browser demo_env demo_url (lit ''q'')
                                   demo_world)))"
proof -
  have w: "open_website_in_browser demo_env demo_url (lit ''q'') demo_world
             = (Inr (lit ''Website is now open using the selenium webdriver'', 0), launched_world)"
    by (simp add: demo_eval module_eval io_eval url_eval text_eval str_eval)
  show ?thesis unfolding w by (simp add: launched_world_def)
qed

text \<open>
  C9. The normalization of white space in text extraction is idempotent: the text it
  gives is left as it is when the normalization is applied again.
\<close>

theorem normalize_text_idempotent:
  "normalize_text (normalize_text text) = normalize_text text"
  by (rule normalize_idem)

theorem normalize_text_idempotent_witness:
  "normalize_text (lit '' Hi   there '' @ [0x0D, 0x0A, 0x0A] @ lit ''  top '')
     = lit ''Hi'' @ [0x0A] @ lit ''there'' @ [0x0A] @ lit ''top''
   \<and> normalize_text (lit ''Hi'' @ [0x0A] @ lit ''there'' @ [0x0A] @ lit ''top'')
     = lit ''Hi'' @ [0x0A] @ lit ''there'' @ [0x0A] @ lit ''top''"
proof -
  have a: "normalize_text (lit '' Hi   there '' @ [0x0D, 0x0A, 0x0A] @ lit ''  top '')
     = lit ''Hi'' @ [0x0A] @ lit ''there'' @ [0x0A] @ lit ''top''"
    by (simp add: demo_eval module_eval io_eval url_eval text_eval str_eval)
  from normalize_text_idempotent[of "lit '' Hi   there '' @ [0x0D, 0x0A, 0x0A] @ lit ''  top ''"]
  show ?thesis by (simp only: a simp_thms)
qed



end
